theory Spec2Isabelle
  imports Main "HOL-Library.AList" "HOL-Library.Sublist"
begin

unbundle bit_operations_syntax

section \<open>Python strings\<close>

text \<open>
  A Python \<open>str\<close> is modelled as a \<^typ>\<open>string\<close>; a \<^typ>\<open>char\<close> stands for a
  code point below 256. The two line boundaries of \<open>str.splitlines\<close> above that range
  (U+2028 and U+2029) are therefore outside the model.
\<close>

abbreviation LF :: char where "LF \<equiv> CHR 0x0A"
abbreviation CR :: char where "CR \<equiv> CHR 0x0D"

definition linebreak :: "char \<Rightarrow> bool" where
  "linebreak c = (c \<in> set [LF, CHR 0x0B, CHR 0x0C, CR, CHR 0x1C, CHR 0x1D, CHR 0x1E, CHR 0x85])"

text \<open>
  \<open>str.splitlines()\<close>: cut at every line boundary, \<open>\r\n\<close> counting as one; the
  boundaries are dropped, and no empty last line is produced for a text that ends with one.
\<close>

function splitlines :: "string \<Rightarrow> string list" where
  "splitlines s =
     (if s = [] then []
      else takeWhile (\<lambda>c. \<not> linebreak c) s #
           (case dropWhile (\<lambda>c. \<not> linebreak c) s of
              [] \<Rightarrow> []
            | c # rest \<Rightarrow>
                splitlines (if c = CR \<and> rest \<noteq> [] \<and> hd rest = LF then tl rest else rest)))"
  by pat_completeness auto
termination
proof (relation "measure length", goal_cases)
  case 1
  show ?case by simp
next
  case (2 s c rest)
  have "length (dropWhile (\<lambda>c. \<not> linebreak c) s) \<le> length s"
    by (rule length_dropWhile_le)
  with 2 have "length rest < length s" by simp
  moreover have "length (tl rest) \<le> length rest" by simp
  ultimately show ?case by auto
qed

declare splitlines.simps [simp del]

text \<open>\<open>sep.join(xs)\<close>.\<close>

fun join :: "string \<Rightarrow> string list \<Rightarrow> string" where
  "join sep [] = []"
| "join sep [x] = x"
| "join sep (x # y # ys) = x @ sep @ join sep (y # ys)"

text \<open>\<open>s.startswith(p)\<close>, \<open>s.endswith(p)\<close> and the substring test \<open>p in s\<close>.\<close>

definition startswith :: "string \<Rightarrow> string \<Rightarrow> bool" where
  "startswith s p = (take (length p) s = p)"

definition endswith :: "string \<Rightarrow> string \<Rightarrow> bool" where
  "endswith s p = (length p \<le> length s \<and> drop (length s - length p) s = p)"

fun contains :: "string \<Rightarrow> string \<Rightarrow> bool" where
  "contains p [] = (p = [])"
| "contains p (c # cs) = (startswith (c # cs) p \<or> contains p cs)"

text \<open>
  \<open>s.split(sep)\<close> for a non-empty separator: cut at the occurrences of \<open>sep\<close>, found from
  left to right and not overlapping. The second argument is the piece being collected.
\<close>

function split_from :: "string \<Rightarrow> string \<Rightarrow> string \<Rightarrow> string list" where
  "split_from sep cur s =
     (if s = [] then [cur]
      else if sep \<noteq> [] \<and> startswith s sep
        then cur # split_from sep [] (drop (length sep) s)
        else split_from sep (cur @ [hd s]) (tl s))"
  by pat_completeness auto
termination
  by (relation "measure (\<lambda>(sep, cur, s). length s)") auto

declare split_from.simps [simp del]

definition split :: "string \<Rightarrow> string \<Rightarrow> string list" where
  "split s sep = split_from sep [] s"

text \<open>\<open>os.path.basename\<close>: what follows the last slash.\<close>

definition basename :: "string \<Rightarrow> string" where
  "basename p = rev (takeWhile (\<lambda>c. c \<noteq> CHR ''/'') (rev p))"

text \<open>\<open>str(n)\<close> for a natural number: its decimal digits.\<close>

definition digit_char :: "nat \<Rightarrow> char" where
  "digit_char d = ''0123456789'' ! d"

function str_nat :: "nat \<Rightarrow> string" where
  "str_nat n = (if n < 10 then [digit_char n] else str_nat (n div 10) @ [digit_char (n mod 10)])"
  by pat_completeness auto
termination
  by (relation "measure id") auto

declare str_nat.simps [simp del]

section \<open>Paths, errors, modes\<close>

text \<open>A \<open>pathlib.Path\<close> is the list of its components, from the root of the file tree.\<close>

type_synonym path = "string list"

datatype Mode = PULL | FULL | LIST | FORCE | CHECK

text \<open>
  The exceptions the module raises, by Python class and by the place that raises them.
  \<open>IndexError\<close> is the interpreter's own, for a subscript out of range; \<open>OSError\<close> stands
  for the failures of \<open>open\<close> and \<open>mkdir\<close>.
\<close>

datatype value_error =
    CheckModeCall
  | SrcNotDirOrFile path
  | NotSimpleFilename string
  | NotSyncable path
  | NoLinesFound path
  | NoSyncHashFound path

datatype runtime_error =
    InvalidSrcFile path
  | AlreadySynced
  | BothChanged path path
  | DstChanged "path list"
  | CheckChanged path

datatype error =
    ValueError value_error
  | RuntimeError runtime_error
  | IndexError
  | AssertionError
  | OSError

section \<open>Eligible file names\<close>

definition valid_filename :: "string \<Rightarrow> error + bool" where
  "valid_filename fname =
     (if basename fname \<noteq> fname then Inl (ValueError (NotSimpleFilename fname))
      else if fname \<in> set [''requirements.txt'', ''pylintrc'', ''clang-format'', ''pycheckers'',
                             ''style.yapf'', ''test_task_bin'', ''.editorconfig'']
        then Inr True
      else Inr (list_ex (\<lambda>ext. endswith fname ext) [''.py'', ''.pyi'']
                \<and> \<not> contains ''flycheck_'' fname))"

section \<open>Hashing and the marker\<close>

text \<open>
  \<open>hashlib.md5\<close> is the MD5 digest of RFC 1321, here on bytes as natural numbers and on
  32-bit words as natural numbers below \<open>2^32\<close>: the message is padded to a multiple of
  64 bytes, each block of sixteen little-endian words goes through the 64 steps of the
  table (the sine constant and the rotation of each step), and the four words of the
  state are added up block after block.
\<close>

definition add32 :: "nat \<Rightarrow> nat \<Rightarrow> nat" where
  "add32 x y = (x + y) mod 4294967296"

definition not32 :: "nat \<Rightarrow> nat" where
  "not32 x = 4294967295 - x"

definition rotl32 :: "nat \<Rightarrow> nat \<Rightarrow> nat" where
  "rotl32 x s = (x * 2 ^ s) mod 4294967296 + x div 2 ^ (32 - s)"

definition md5_table :: "(nat \<times> nat) list" where
  "md5_table =
   [(0xd76aa478, 7), (0xe8c7b756, 12), (0x242070db, 17), (0xc1bdceee, 22),
    (0xf57c0faf, 7), (0x4787c62a, 12), (0xa8304613, 17), (0xfd469501, 22),
    (0x698098d8, 7), (0x8b44f7af, 12), (0xffff5bb1, 17), (0x895cd7be, 22),
    (0x6b901122, 7), (0xfd987193, 12), (0xa679438e, 17), (0x49b40821, 22),
    (0xf61e2562, 5), (0xc040b340, 9), (0x265e5a51, 14), (0xe9b6c7aa, 20),
    (0xd62f105d, 5), (0x02441453, 9), (0xd8a1e681, 14), (0xe7d3fbc8, 20),
    (0x21e1cde6, 5), (0xc33707d6, 9), (0xf4d50d87, 14), (0x455a14ed, 20),
    (0xa9e3e905, 5), (0xfcefa3f8, 9), (0x676f02d9, 14), (0x8d2a4c8a, 20),
    (0xfffa3942, 4), (0x8771f681, 11), (0x6d9d6122, 16), (0xfde5380c, 23),
    (0xa4beea44, 4), (0x4bdecfa9, 11), (0xf6bb4b60, 16), (0xbebfbc70, 23),
    (0x289b7ec6, 4), (0xeaa127fa, 11), (0xd4ef3085, 16), (0x04881d05, 23),
    (0xd9d4d039, 4), (0xe6db99e5, 11), (0x1fa27cf8, 16), (0xc4ac5665, 23),
    (0xf4292244, 6), (0x432aff97, 10), (0xab9423a7, 15), (0xfc93a039, 21),
    (0x655b59c3, 6), (0x8f0ccc92, 10), (0xffeff47d, 15), (0x85845dd1, 21),
    (0x6fa87e4f, 6), (0xfe2ce6e0, 10), (0xa3014314, 15), (0x4e0811a1, 21),
    (0xf7537e82, 6), (0xbd3af235, 10), (0x2ad7d2bb, 15), (0xeb86d391, 21)]"

text \<open>
  The steps of one block: \<open>m\<close> is the block's sixteen words, \<open>i\<close> the number of the step,
  the list what is left of the table, and \<open>a b c d\<close> the working state.
\<close>

fun md5_rounds ::
  "nat list \<Rightarrow> nat \<Rightarrow> (nat \<times> nat) list \<Rightarrow> nat \<Rightarrow> nat \<Rightarrow> nat \<Rightarrow> nat \<Rightarrow> nat \<times> nat \<times> nat \<times> nat" where
  "md5_rounds m i [] a b c d = (a, b, c, d)"
| "md5_rounds m i ((k, s) # ks) a b c d =
     md5_rounds m (i + 1) ks d
       (add32 b (rotl32 (add32 (add32 (add32
          (if i < 16 then (b AND c) OR (not32 b AND d)
           else if i < 32 then (d AND b) OR (not32 d AND c)
           else if i < 48 then b XOR c XOR d
           else c XOR (b OR not32 d)) a) k)
          (m ! (if i < 16 then i
                else if i < 32 then (5 * i + 1) mod 16
                else if i < 48 then (3 * i + 5) mod 16
                else (7 * i) mod 16))) s))
       b c"

fun md5_add ::
  "nat \<times> nat \<times> nat \<times> nat \<Rightarrow> nat \<times> nat \<times> nat \<times> nat \<Rightarrow> nat \<times> nat \<times> nat \<times> nat" where
  "md5_add (a, b, c, d) (a', b', c', d') = (add32 a a', add32 b b', add32 c c', add32 d d')"

fun md5_block :: "nat \<times> nat \<times> nat \<times> nat \<Rightarrow> nat list \<Rightarrow> nat \<times> nat \<times> nat \<times> nat" where
  "md5_block (a, b, c, d) blk = md5_add (a, b, c, d) (md5_rounds blk 0 md5_table a b c d)"

fun le_words :: "nat list \<Rightarrow> nat list" where
  "le_words (a # b # c # d # rest) = (a + 256 * b + 65536 * c + 16777216 * d) # le_words rest"
| "le_words bs = []"

function blocks :: "nat list \<Rightarrow> nat list list" where
  "blocks bs = (if length bs < 64 then [] else le_words (take 64 bs) # blocks (drop 64 bs))"
  by pat_completeness auto
termination
  by (relation "measure length") auto

declare blocks.simps [simp del]

definition le_bytes4 :: "nat \<Rightarrow> nat list" where
  "le_bytes4 x = [x mod 256, x div 256 mod 256, x div 65536 mod 256, x div 16777216 mod 256]"

definition md5_pad :: "nat list \<Rightarrow> nat list" where
  "md5_pad bs =
     bs @ [128] @ replicate ((119 - length bs mod 64) mod 64) 0
        @ le_bytes4 ((8 * length bs) mod 4294967296)
        @ le_bytes4 ((8 * length bs) div 4294967296 mod 4294967296)"

fun md5_output :: "nat \<times> nat \<times> nat \<times> nat \<Rightarrow> nat list" where
  "md5_output (a, b, c, d) = le_bytes4 a @ le_bytes4 b @ le_bytes4 c @ le_bytes4 d"

definition md5 :: "nat list \<Rightarrow> nat list" where
  "md5 bs =
     md5_output (foldl md5_block (0x67452301, 0xefcdab89, 0x98badcfe, 0x10325476)
                   (blocks (md5_pad bs)))"

declare md5_rounds.simps [simp del] md5_add.simps [simp del] md5_block.simps [simp del]
  md5_output.simps [simp del]

text \<open>\<open>str.encode()\<close>: UTF-8, which takes one byte for a code point below 128 and two up to 255.\<close>

definition utf8 :: "string \<Rightarrow> nat list" where
  "utf8 s = concat (map (\<lambda>c. if (of_char c :: nat) < 128 then [of_char c]
                                else [192 + of_char c div 64, 128 + of_char c mod 64]) s)"

text \<open>
  \<open>string_hash\<close> prints the digest of the encoded text, read as a big-endian integer, in
  decimal.
\<close>

definition from_bytes_big :: "nat list \<Rightarrow> nat" where
  "from_bytes_big bs = foldl (\<lambda>acc b. 256 * acc + b) 0 bs"

definition string_hash :: "string \<Rightarrow> string" where
  "string_hash data = str_nat (from_bytes_big (md5 (utf8 data)))"

definition add_marker :: "string \<Rightarrow> string \<Rightarrow> error + string" where
  "add_marker src_proj srcdata =
     (let lines = splitlines srcdata in
      if length lines > 1 \<and> contains ''EFRO_SYNC_HASH='' (lines ! 1)
        then Inl (RuntimeError AlreadySynced)
      else
        let hashstr = string_hash srcdata;
            lines' = (''# Synced from '' @ src_proj @ ''.'' @ [LF] @
                      ''# EFRO_SYNC_HASH='' @ hashstr @ [LF] @ ''#'') # lines
        in Inr (join [LF] lines' @ [LF]))"

text \<open>
  The part of \<open>get_dst_file_info\<close> after the file is read. \<open>dstlines[1]\<close> on a text of one
  line, and \<open>split(...)[1]\<close> on a line without the separator, raise \<open>IndexError\<close>.
\<close>

definition dst_info :: "path \<Rightarrow> string \<Rightarrow> error + (string \<times> string \<times> string)" where
  "dst_info dstfile dstdata =
     (let dstlines = splitlines dstdata in
      if dstlines = [] then Inl (ValueError (NoLinesFound dstfile))
      else if length dstlines \<le> 1 then Inl IndexError
      else if \<not> contains ''EFRO_SYNC_HASH'' (dstlines ! 1)
        then Inl (ValueError (NoSyncHashFound dstfile))
      else
        let parts = split (dstlines ! 1) ''EFRO_SYNC_HASH='' in
        if length parts \<le> 1 then Inl IndexError
        else
          let marker_hash = parts ! 1;
              dstdata' = join [LF] (drop 3 dstlines) @ [LF];
              dst_hash = string_hash dstdata'
          in Inr (marker_hash, dst_hash, dstdata'))"

section \<open>The file tree\<close>

text \<open>
  The file tree is a rooted tree: a file holds its text (as Python's text mode reads it),
  a directory lists its entries in the order \<open>os.scandir\<close> gives them. The run also keeps
  the list of the files it opened for writing and of the paths it removed.
\<close>

datatype node = File string | Dir "(string \<times> node) list"

datatype fs_event = Wrote path | Removed path

record world =
  tree :: node
  events :: "fs_event list"

fun lookup :: "node \<Rightarrow> path \<Rightarrow> node option" where
  "lookup n [] = Some n"
| "lookup (File c) (x # xs) = None"
| "lookup (Dir es) (x # xs) = (case map_of es x of None \<Rightarrow> None | Some n \<Rightarrow> lookup n xs)"

definition is_file :: "world \<Rightarrow> path \<Rightarrow> bool" where
  "is_file w p = (case lookup (tree w) p of Some (File c) \<Rightarrow> True | _ \<Rightarrow> False)"

definition is_dir :: "world \<Rightarrow> path \<Rightarrow> bool" where
  "is_dir w p = (case lookup (tree w) p of Some (Dir es) \<Rightarrow> True | _ \<Rightarrow> False)"

definition path_exists :: "world \<Rightarrow> path \<Rightarrow> bool" where
  "path_exists w p = (lookup (tree w) p \<noteq> None)"

definition read_text :: "world \<Rightarrow> path \<Rightarrow> error + string" where
  "read_text w p = (case lookup (tree w) p of Some (File c) \<Rightarrow> Inr c | _ \<Rightarrow> Inl OSError)"

text \<open>
  Storing a text at a path, as \<open>open(p, 'w')\<close> and \<open>write\<close> do: the file is created in an
  existing directory or replaced; a directory at \<open>p\<close>, or a missing or non-directory
  parent, is an \<open>OSError\<close>.
\<close>

fun put_file :: "node \<Rightarrow> path \<Rightarrow> string \<Rightarrow> error + node" where
  "put_file (File c) [] s = Inr (File s)"
| "put_file (Dir es) [] s = Inl OSError"
| "put_file (File c) (x # xs) s = Inl OSError"
| "put_file (Dir es) (x # xs) s =
     (case map_of es x of
        None \<Rightarrow> if xs = [] then Inr (Dir (AList.update x (File s) es)) else Inl OSError
      | Some n \<Rightarrow>
          (case put_file n xs s of
             Inl e \<Rightarrow> Inl e
           | Inr n' \<Rightarrow> Inr (Dir (AList.update x n' es))))"

text \<open>\<open>Path.mkdir(parents=True, exist_ok=True)\<close>; a file on the way is an \<open>OSError\<close>.\<close>

fun mkdirs :: "node \<Rightarrow> path \<Rightarrow> error + node" where
  "mkdirs (File c) p = Inl OSError"
| "mkdirs (Dir es) [] = Inr (Dir es)"
| "mkdirs (Dir es) (x # xs) =
     (case mkdirs (case map_of es x of None \<Rightarrow> Dir [] | Some n \<Rightarrow> n) xs of
        Inl e \<Rightarrow> Inl e
      | Inr n' \<Rightarrow> Inr (Dir (AList.update x n' es)))"

text \<open>
  \<open>rm -rf\<close> of a path: the entry and all below it go; a path that is not there is left
  alone. (The source builds a shell command around the path; names are taken to be free
  of characters the shell interprets.)
\<close>

fun remove_tree :: "node \<Rightarrow> path \<Rightarrow> node" where
  "remove_tree n [] = n"
| "remove_tree (File c) (x # xs) = File c"
| "remove_tree (Dir es) [x] = Dir (AList.delete x es)"
| "remove_tree (Dir es) (x # y # ys) =
     (case map_of es x of
        None \<Rightarrow> Dir es
      | Some n \<Rightarrow> Dir (AList.update x (remove_tree n (y # ys)) es))"

text \<open>
  \<open>os.walk\<close>, top-down: for each directory its path, the names of its sub-directories and
  the names of its files; nothing for a path that is not a directory.
\<close>

fun dirnames :: "(string \<times> node) list \<Rightarrow> string list" where
  "dirnames [] = []"
| "dirnames ((x, Dir es) # rest) = x # dirnames rest"
| "dirnames ((x, File c) # rest) = dirnames rest"

fun filenames :: "(string \<times> node) list \<Rightarrow> string list" where
  "filenames [] = []"
| "filenames ((x, File c) # rest) = x # filenames rest"
| "filenames ((x, Dir es) # rest) = filenames rest"

fun walk :: "path \<Rightarrow> node \<Rightarrow> (path \<times> string list \<times> string list) list"
  and walk_entries :: "path \<Rightarrow> (string \<times> node) list \<Rightarrow> (path \<times> string list \<times> string list) list"
  where
  "walk root (File c) = []"
| "walk root (Dir es) = (root, dirnames es, filenames es) # walk_entries root es"
| "walk_entries root [] = []"
| "walk_entries root ((x, n) # rest) = walk (root @ [x]) n @ walk_entries root rest"

definition os_walk :: "world \<Rightarrow> path \<Rightarrow> (path \<times> string list \<times> string list) list" where
  "os_walk w topdir = (case lookup (tree w) topdir of None \<Rightarrow> [] | Some n \<Rightarrow> walk topdir n)"

definition parent :: "path \<Rightarrow> path" where
  "parent p = butlast p"

definition path_name :: "path \<Rightarrow> string" where
  "path_name p = (if p = [] then [] else last p)"

definition path_str :: "path \<Rightarrow> string" where
  "path_str p = join ''/'' p"

definition mkdir_parents :: "world \<Rightarrow> path \<Rightarrow> error + world" where
  "mkdir_parents w p =
     (case mkdirs (tree w) p of Inl e \<Rightarrow> Inl e | Inr t \<Rightarrow> Inr (w\<lparr>tree := t\<rparr>))"

text \<open>\<open>open(p, 'w')\<close> creates the file or empties it; the run notes the path.\<close>

definition open_w :: "world \<Rightarrow> path \<Rightarrow> error + world" where
  "open_w w p =
     (case put_file (tree w) p [] of
        Inl e \<Rightarrow> Inl e
      | Inr t \<Rightarrow> Inr (w\<lparr>tree := t, events := events w @ [Wrote p]\<rparr>))"

definition file_write :: "world \<Rightarrow> path \<Rightarrow> string \<Rightarrow> world" where
  "file_write w p s =
     (case put_file (tree w) p s of Inl e \<Rightarrow> w | Inr t \<Rightarrow> w\<lparr>tree := t\<rparr>)"

text \<open>\<open>with p.open('w') as outfile: outfile.write(data)\<close>.\<close>

definition write_text :: "world \<Rightarrow> path \<Rightarrow> string \<Rightarrow> world \<times> (error + unit)" where
  "write_text w p data =
     (case open_w w p of
        Inl e \<Rightarrow> (w, Inl e)
      | Inr w1 \<Rightarrow> (file_write w1 p data, Inr ()))"

text \<open>
  \<open>with dstfile.open('w') as outfile: outfile.write(add_marker(src_proj, data))\<close>: the
  file is opened, and so emptied, before \<open>add_marker\<close> runs and may raise.
\<close>

definition write_marked :: "string \<Rightarrow> world \<Rightarrow> path \<Rightarrow> string \<Rightarrow> world \<times> (error + unit)" where
  "write_marked src_proj w dstfile data =
     (case open_w w dstfile of
        Inl e \<Rightarrow> (w, Inl e)
      | Inr w1 \<Rightarrow>
          (case add_marker src_proj data of
             Inl e \<Rightarrow> (w1, Inl e)
           | Inr marked \<Rightarrow> (file_write w1 dstfile marked, Inr ())))"

definition get_dst_file_info :: "world \<Rightarrow> path \<Rightarrow> error + (string \<times> string \<times> string)" where
  "get_dst_file_info w dstfile =
     (case read_text w dstfile of
        Inl e \<Rightarrow> Inl e
      | Inr dstdata \<Rightarrow> dst_info dstfile dstdata)"

section \<open>Syncing\<close>

text \<open>
  One turn of the loop over \<open>allpaths\<close> in \<open>sync_paths\<close>, for the pair
  \<open>(srcfile, dstfile)\<close>. The result is the world the turn leaves behind together with either
  the exception raised or the list \<open>changed_error_dst_files\<close>. Console output is not
  modelled.
\<close>

definition sync_file ::
  "string \<Rightarrow> Mode \<Rightarrow> path \<times> path \<Rightarrow> world \<Rightarrow> path list \<Rightarrow> world \<times> (error + path list)" where
  "sync_file src_proj mode pr w changed =
     (case pr of (srcfile, dstfile) \<Rightarrow>
      if \<not> is_file w srcfile then (w, Inl (RuntimeError (InvalidSrcFile srcfile)))
      else
        case mkdir_parents w (parent dstfile) of
          Inl e \<Rightarrow> (w, Inl e)
        | Inr w1 \<Rightarrow>
        case read_text w1 srcfile of
          Inl e \<Rightarrow> (w1, Inl e)
        | Inr srcdata \<Rightarrow>
        let src_hash = string_hash srcdata in
        if \<not> is_file w1 dstfile \<or> mode = FORCE then
          (if mode = LIST then (w1, Inr changed)
           else case write_marked src_proj w1 dstfile srcdata of
                  (w2, Inl e) \<Rightarrow> (w2, Inl e)
                | (w2, Inr u) \<Rightarrow> (w2, Inr changed))
        else
        case get_dst_file_info w1 dstfile of
          Inl e \<Rightarrow> (w1, Inl e)
        | Inr (marker_hash, dst_hash, dstdata) \<Rightarrow>
        if src_hash \<noteq> marker_hash \<and> dst_hash = marker_hash then
          (if mode = LIST then (w1, Inr changed)
           else case write_marked src_proj w1 dstfile srcdata of
                  (w2, Inl e) \<Rightarrow> (w2, Inl e)
                | (w2, Inr u) \<Rightarrow> (w2, Inr changed))
        else if src_hash = marker_hash \<and> dst_hash \<noteq> marker_hash then
          (if mode = LIST then (w1, Inr changed)
           else if mode = FULL then
             (case write_text w1 srcfile dstdata of
                (w2, Inl e) \<Rightarrow> (w2, Inl e)
              | (w2, Inr u) \<Rightarrow>
                  (case write_marked src_proj w2 dstfile dstdata of
                     (w3, Inl e) \<Rightarrow> (w3, Inl e)
                   | (w3, Inr u') \<Rightarrow> (w3, Inr changed)))
           else (w1, Inr (changed @ [dstfile])))
        else if marker_hash \<notin> {src_hash, dst_hash} then
          (if src_hash = dst_hash then
             (if mode = LIST then (w1, Inr changed)
              else case write_marked src_proj w1 dstfile srcdata of
                     (w2, Inl e) \<Rightarrow> (w2, Inl e)
                   | (w2, Inr u) \<Rightarrow> (w2, Inr changed))
           else (w1, Inl (RuntimeError (BothChanged srcfile dstfile))))
        else if src_hash = marker_hash \<and> dst_hash = marker_hash then (w1, Inr changed)
        else (w1, Inl AssertionError))"

fun sync_files ::
  "string \<Rightarrow> Mode \<Rightarrow> (path \<times> path) list \<Rightarrow> world \<Rightarrow> path list \<Rightarrow> world \<times> (error + path list)" where
  "sync_files src_proj mode [] w changed = (w, Inr changed)"
| "sync_files src_proj mode (pr # prs) w changed =
     (case sync_file src_proj mode pr w changed of
        (w', Inl e) \<Rightarrow> (w', Inl e)
      | (w', Inr changed') \<Rightarrow> sync_files src_proj mode prs w' changed')"

text \<open>
  Building \<open>allpaths\<close>: the valid files of one directory of the walk, then of the whole
  walk, each paired with its path under \<open>dst\<close>. \<open>relative_to\<close> drops the prefix \<open>src\<close>,
  which every path of the walk has.
\<close>

definition relative_to :: "path \<Rightarrow> path \<Rightarrow> path" where
  "relative_to p base = drop (length base) p"

fun dir_pairs :: "path \<Rightarrow> path \<Rightarrow> path \<Rightarrow> string list \<Rightarrow> error + (path \<times> path) list" where
  "dir_pairs src dst root [] = Inr []"
| "dir_pairs src dst root (fname # fnames) =
     (case valid_filename fname of
        Inl e \<Rightarrow> Inl e
      | Inr ok \<Rightarrow>
          (case dir_pairs src dst root fnames of
             Inl e \<Rightarrow> Inl e
           | Inr prs \<Rightarrow>
               Inr ((if ok then [(root @ [fname], dst @ relative_to (root @ [fname]) src)]
                     else []) @ prs)))"

fun walk_pairs ::
  "path \<Rightarrow> path \<Rightarrow> (path \<times> string list \<times> string list) list \<Rightarrow> error + (path \<times> path) list" where
  "walk_pairs src dst [] = Inr []"
| "walk_pairs src dst ((root, dirs, fnames) # rest) =
     (case dir_pairs src dst root fnames of
        Inl e \<Rightarrow> Inl e
      | Inr prs \<Rightarrow>
          (case walk_pairs src dst rest of
             Inl e \<Rightarrow> Inl e
           | Inr prs' \<Rightarrow> Inr (prs @ prs')))"

definition all_paths :: "world \<Rightarrow> path \<Rightarrow> path \<Rightarrow> error + (path \<times> path) list" where
  "all_paths w src dst =
     (if is_file w src then
        (case valid_filename (path_name src) of
           Inl e \<Rightarrow> Inl e
         | Inr ok \<Rightarrow> if \<not> ok then Inl (ValueError (NotSyncable src)) else Inr [(src, dst)])
      else walk_pairs src dst (os_walk w src))"

text \<open>
  The orphans: the entries under \<open>dst\<close>, directories first in each directory of the walk,
  that are not hidden, not under or named after a cache directory, and have nothing at the
  same place under \<open>src\<close>.
\<close>

definition kill_names :: "world \<Rightarrow> path \<Rightarrow> path \<Rightarrow> path \<Rightarrow> string list \<Rightarrow> path list" where
  "kill_names w src dst root names =
     map (\<lambda>nm. root @ [nm])
       (filter (\<lambda>nm.
          \<not> (startswith nm ''.'' \<or> contains ''__pycache__'' (path_str root)
             \<or> contains ''__pycache__'' nm)
          \<and> \<not> path_exists w (src @ relative_to (root @ [nm]) dst)) names)"

definition kill_paths :: "world \<Rightarrow> path \<Rightarrow> path \<Rightarrow> path list" where
  "kill_paths w src dst =
     concat (map (\<lambda>(root, dirs, fnames). kill_names w src dst root (dirs @ fnames))
                 (os_walk w dst))"

fun remove_orphans :: "Mode \<Rightarrow> path list \<Rightarrow> world \<Rightarrow> world" where
  "remove_orphans mode [] w = w"
| "remove_orphans mode (killpath # rest) w =
     remove_orphans mode rest
       (if path_exists w killpath \<and> mode \<noteq> LIST
        then w\<lparr>tree := remove_tree (tree w) killpath, events := events w @ [Removed killpath]\<rparr>
        else w)"

definition sync_paths ::
  "string \<Rightarrow> path \<Rightarrow> path \<Rightarrow> Mode \<Rightarrow> world \<Rightarrow> world \<times> (error + nat)" where
  "sync_paths src_proj src dst mode w =
     (if mode = CHECK then (w, Inl (ValueError CheckModeCall))
      else if \<not> (is_dir w src \<or> is_file w src) then (w, Inl (ValueError (SrcNotDirOrFile src)))
      else
        case all_paths w src dst of
          Inl e \<Rightarrow> (w, Inl e)
        | Inr allpaths \<Rightarrow>
        case sync_files src_proj mode allpaths w [] of
          (w1, Inl e) \<Rightarrow> (w1, Inl e)
        | (w1, Inr changed) \<Rightarrow>
        let w2 = (if is_dir w1 dst then remove_orphans mode (kill_paths w1 src dst) w1 else w1)
        in if changed \<noteq> [] then (w2, Inl (RuntimeError (DstChanged changed)))
           else (w2, Inr (length allpaths)))"

text \<open>\<open>check_path\<close> reads only: it takes the world and returns no new one.\<close>

fun check_names :: "path \<Rightarrow> string list \<Rightarrow> error + path list" where
  "check_names root [] = Inr []"
| "check_names root (fname # fnames) =
     (case valid_filename fname of
        Inl e \<Rightarrow> Inl e
      | Inr ok \<Rightarrow>
          (case check_names root fnames of
             Inl e \<Rightarrow> Inl e
           | Inr ps \<Rightarrow> Inr ((if ok then [root @ [fname]] else []) @ ps)))"

fun check_walk :: "(path \<times> string list \<times> string list) list \<Rightarrow> error + path list" where
  "check_walk [] = Inr []"
| "check_walk ((root, dirs, fnames) # rest) =
     (case check_names root fnames of
        Inl e \<Rightarrow> Inl e
      | Inr ps \<Rightarrow>
          (case check_walk rest of Inl e \<Rightarrow> Inl e | Inr ps' \<Rightarrow> Inr (ps @ ps')))"

fun check_files :: "world \<Rightarrow> path list \<Rightarrow> error + unit" where
  "check_files w [] = Inr ()"
| "check_files w (dstfile # rest) =
     (case get_dst_file_info w dstfile of
        Inl e \<Rightarrow> Inl e
      | Inr (marker_hash, dst_hash, dstdata) \<Rightarrow>
          if marker_hash \<noteq> dst_hash then Inl (RuntimeError (CheckChanged dstfile))
          else check_files w rest)"

definition check_path :: "world \<Rightarrow> path \<Rightarrow> error + nat" where
  "check_path w dst =
     (case check_walk (os_walk w dst) of
        Inl e \<Rightarrow> Inl e
      | Inr allpaths \<Rightarrow>
          (case check_files w allpaths of
             Inl e \<Rightarrow> Inl e
           | Inr u \<Rightarrow> Inr (length allpaths)))"

section \<open>Notions used in the statements\<close>

text \<open>The lines of a text put back together, each closed by a line feed.\<close>

definition unlines :: "string list \<Rightarrow> string" where
  "unlines ls = concat (map (\<lambda>l. l @ [LF]) ls)"

text \<open>
  What \<open>'\n'.join(s.splitlines()) + '\n'\<close> makes of a text: the form in which
  \<open>add_marker\<close> stores a body and \<open>get_dst_file_info\<close> returns it.
\<close>

definition normal_text :: "string \<Rightarrow> string" where
  "normal_text s = join [LF] (splitlines s) @ [LF]"

text \<open>The text of the file at a path, if a file is there.\<close>

definition file_at :: "node \<Rightarrow> path \<Rightarrow> string option" where
  "file_at t p = (case lookup t p of Some (File c) \<Rightarrow> Some c | _ \<Rightarrow> None)"

text \<open>
  The pair state of claim C1: the source's hash is the marker's, the destination's body
  hashes to something else.
\<close>

definition dst_changed_only :: "world \<Rightarrow> path \<times> path \<Rightarrow> bool" where
  "dst_changed_only w pr =
     (case pr of (srcfile, dstfile) \<Rightarrow>
        (case (read_text w srcfile, get_dst_file_info w dstfile) of
           (Inr srcdata, Inr (marker_hash, dst_hash, dstdata)) \<Rightarrow>
             string_hash srcdata = marker_hash \<and> dst_hash \<noteq> marker_hash
         | _ \<Rightarrow> False))"

text \<open>
  The destinations of the pairs that are in that state when their turn comes in a PULL
  run, in the order of the run.
\<close>

fun pending_conflicts :: "string \<Rightarrow> (path \<times> path) list \<Rightarrow> world \<Rightarrow> path list" where
  "pending_conflicts src_proj [] w = []"
| "pending_conflicts src_proj (pr # prs) w =
     (if dst_changed_only w pr then [snd pr] else [])
     @ pending_conflicts src_proj prs (fst (sync_file src_proj PULL pr w []))"

text \<open>
  Worked examples: a source directory \<open>src\<close> with one file \<open>a.py\<close> holding \<open>x=1\<close>, and
  a destination directory \<open>dst\<close> whose \<open>a.py\<close> holds \<open>x=2\<close> under a marker. In the first
  world the marker has the hash of the source (the destination alone was edited); in the
  second it has the hash of a third text, \<open>x=3\<close> (both sides were edited, differently); in
  the third the destination holds \<open>x=1\<close> as well (both sides were edited alike).
\<close>

definition marked_file :: "string \<Rightarrow> string \<Rightarrow> node" where
  "marked_file hashstr body =
     File (''# Synced from proj.'' @ [LF] @ ''# EFRO_SYNC_HASH='' @ hashstr @ [LF] @ ''#'' @ [LF]
           @ body)"

definition example_world :: "string \<Rightarrow> string \<Rightarrow> world" where
  "example_world hashstr body =
     \<lparr>tree = Dir [(''src'', Dir [(''a.py'', File (''x=1'' @ [LF]))]),
                  (''dst'', Dir [(''a.py'', marked_file hashstr body)])],
      events = []\<rparr>"

definition conflict_world :: world where
  "conflict_world = example_world ''331522703481584221736678623746454329871'' (''x=2'' @ [LF])"

definition diverged_world :: world where
  "diverged_world = example_world ''65112394118703306444922135359299503413'' (''x=2'' @ [LF])"

definition converged_world :: world where
  "converged_world = example_world ''65112394118703306444922135359299503413'' (''x=1'' @ [LF])"


definition fresh_world :: world where
  "fresh_world =
     \<lparr>tree = Dir [(''src'', Dir [(''sub'', Dir [(''a.py'', File (''x=1'' @ [LF]))])])],
      events = []\<rparr>"

definition fresh_world_dirs :: world where
  "fresh_world_dirs =
     \<lparr>tree = Dir [(''src'', Dir [(''sub'', Dir [(''a.py'', File (''x=1'' @ [LF]))])]),
                  (''dst'', Dir [(''sub'', Dir [])])],
      events = []\<rparr>"






section \<open>Properties\<close>

subsection \<open>Strings and the marker\<close>

lemma splitlines_Nil [simp]: "splitlines [] = []"
  by (simp add: splitlines.simps)

lemma linebreak_LF [simp]: "linebreak LF"
  by (simp add: linebreak_def)

lemma splitlines_line:
  assumes "\<forall>c\<in>set l. \<not> linebreak c"
  shows "splitlines (l @ LF # rest) = l # splitlines rest"
proof -
  have t: "takeWhile (\<lambda>c. \<not> linebreak c) (l @ LF # rest) = l"
    using assms by (simp add: takeWhile_append2)
  have d: "dropWhile (\<lambda>c. \<not> linebreak c) (l @ LF # rest) = LF # rest"
    using assms by (simp add: dropWhile_append2)
  show ?thesis
    by (subst splitlines.simps) (simp add: t d)
qed

lemma splitlines_last_line:
  assumes "\<forall>c\<in>set l. \<not> linebreak c" and "l \<noteq> []"
  shows "splitlines l = [l]"
proof -
  have t: "takeWhile (\<lambda>c. \<not> linebreak c) l = l"
    using assms by simp
  have d: "dropWhile (\<lambda>c. \<not> linebreak c) l = []"
    using assms by simp
  show ?thesis
    using assms(2) by (subst splitlines.simps) (simp add: t d)
qed

lemma splitlines_nobreak:
  "l \<in> set (splitlines s) \<Longrightarrow> c \<in> set l \<Longrightarrow> \<not> linebreak c"
proof (induction s rule: splitlines.induct)
  case (1 s)
  show ?case
  proof (cases "s = []")
    case True
    with 1 show ?thesis by simp
  next
    case False
    show ?thesis
    proof (cases "dropWhile (\<lambda>c. \<not> linebreak c) s")
      case Nil
      with False 1(2) have "l = takeWhile (\<lambda>c. \<not> linebreak c) s"
        by (subst (asm) splitlines.simps) simp
      with 1(3) show ?thesis by (auto dest: set_takeWhileD)
    next
      case (Cons d rest)
      let ?r = "if d = CR \<and> rest \<noteq> [] \<and> hd rest = LF then tl rest else rest"
      from False Cons 1(2)
      have "l = takeWhile (\<lambda>c. \<not> linebreak c) s \<or> l \<in> set (splitlines ?r)"
        by (subst (asm) splitlines.simps) (simp split: if_splits)
      then show ?thesis
      proof
        assume "l = takeWhile (\<lambda>c. \<not> linebreak c) s"
        with 1(3) show ?thesis by (auto dest: set_takeWhileD)
      next
        assume "l \<in> set (splitlines ?r)"
        from 1(1)[OF False Cons this 1(3)] show ?thesis .
      qed
    qed
  qed
qed

lemma splitlines_unlines:
  "\<forall>l\<in>set ls. \<forall>c\<in>set l. \<not> linebreak c \<Longrightarrow> splitlines (unlines ls) = ls"
  by (induction ls) (simp_all add: unlines_def splitlines_line)

lemma join_LF_unlines: "ls \<noteq> [] \<Longrightarrow> join [LF] ls @ [LF] = unlines ls"
proof (induction ls)
  case Nil
  then show ?case by simp
next
  case (Cons l ls)
  then show ?case by (cases ls) (simp_all add: unlines_def)
qed

lemma startswith_iff: "startswith s p \<longleftrightarrow> (\<exists>r. s = p @ r)"
  unfolding startswith_def
  by (metis append_eq_conv_conj append_take_drop_id)

lemma endswith_iff: "endswith s p \<longleftrightarrow> (\<exists>r. s = r @ p)"
proof
  assume "endswith s p"
  then have "s = take (length s - length p) s @ p"
    unfolding endswith_def by (metis append_take_drop_id)
  then show "\<exists>r. s = r @ p" ..
next
  assume "\<exists>r. s = r @ p"
  then show "endswith s p" by (auto simp: endswith_def)
qed

lemma contains_iff: "contains p s \<longleftrightarrow> (\<exists>a b. s = a @ p @ b)"
proof (induction s)
  case Nil
  then show ?case by auto
next
  case (Cons c cs)
  show ?case
  proof
    assume "contains p (c # cs)"
    then consider "startswith (c # cs) p" | "contains p cs" by auto
    then show "\<exists>a b. c # cs = a @ p @ b"
    proof cases
      case 1
      then obtain r where "c # cs = p @ r" by (auto simp: startswith_iff)
      then have "c # cs = [] @ p @ r" by simp
      then show ?thesis by blast
    next
      case 2
      with Cons obtain a b where "cs = a @ p @ b" by auto
      then have "c # cs = (c # a) @ p @ b" by simp
      then show ?thesis by blast
    qed
  next
    assume "\<exists>a b. c # cs = a @ p @ b"
    then obtain a b where ab: "c # cs = a @ p @ b" by blast
    show "contains p (c # cs)"
    proof (cases a)
      case Nil
      with ab have "startswith (c # cs) p" by (auto simp: startswith_iff)
      then show ?thesis by simp
    next
      case (Cons x xs)
      with ab have "cs = xs @ p @ b" by simp
      with Cons.IH show ?thesis by auto
    qed
  qed
qed

lemma basename_id_iff: "basename f = f \<longleftrightarrow> CHR ''/'' \<notin> set f"
proof
  assume "basename f = f"
  then have "rev f = takeWhile (\<lambda>c. c \<noteq> CHR ''/'') (rev f)"
    by (metis basename_def rev_rev_ident)
  then have "\<forall>c\<in>set (rev f). c \<noteq> CHR ''/''"
    by (metis set_takeWhileD)
  then show "CHR ''/'' \<notin> set f" by auto
next
  assume "CHR ''/'' \<notin> set f"
  then have "\<forall>c\<in>set (rev f). c \<noteq> CHR ''/''" by auto
  then have "takeWhile (\<lambda>c. c \<noteq> CHR ''/'') (rev f) = rev f"
    by (simp only: takeWhile_eq_all_conv)
  then show "basename f = f" unfolding basename_def by (simp only: rev_rev_ident)
qed

lemma digit_char_in: "d < 10 \<Longrightarrow> digit_char d \<in> set ''0123456789''"
proof -
  assume "d < 10"
  then have "d = 0 \<or> d = 1 \<or> d = 2 \<or> d = 3 \<or> d = 4 \<or> d = 5 \<or> d = 6 \<or> d = 7 \<or> d = 8 \<or> d = 9"
    by arith
  then show ?thesis
    by (elim disjE) (simp_all add: digit_char_def)
qed

lemma str_nat_digits: "c \<in> set (str_nat n) \<Longrightarrow> c \<in> set ''0123456789''"
proof (induction n rule: str_nat.induct)
  case (1 n)
  show ?case
  proof (cases "n < 10")
    case True
    with 1(2) have "c = digit_char n" by (subst (asm) str_nat.simps) simp
    with True show ?thesis using digit_char_in by blast
  next
    case False
    with 1(2) have "c \<in> set (str_nat (n div 10)) \<or> c = digit_char (n mod 10)"
      by (subst (asm) str_nat.simps) auto
    then show ?thesis
    proof
      assume "c \<in> set (str_nat (n div 10))"
      with 1(1)[OF False] show ?thesis .
    next
      assume "c = digit_char (n mod 10)"
      moreover have "n mod 10 < 10" by simp
      ultimately show ?thesis using digit_char_in by blast
    qed
  qed
qed

lemma string_hash_digits: "c \<in> set (string_hash s) \<Longrightarrow> c \<in> set ''0123456789''"
  unfolding string_hash_def by (rule str_nat_digits)

lemma string_hash_nobreak: "c \<in> set (string_hash s) \<Longrightarrow> \<not> linebreak c"
  by (drule string_hash_digits) (auto simp: linebreak_def)

lemma contains_hd: "contains p s \<Longrightarrow> p \<noteq> [] \<Longrightarrow> hd p \<in> set s"
  by (auto simp: contains_iff)

lemma string_hash_no_marker: "\<not> contains ''EFRO_SYNC_HASH='' (string_hash s)"
proof
  assume "contains ''EFRO_SYNC_HASH='' (string_hash s)"
  then have "CHR ''E'' \<in> set (string_hash s)"
    by (auto dest: contains_hd)
  then have "CHR ''E'' \<in> set ''0123456789''" by (rule string_hash_digits)
  then show False by simp
qed

lemma split_from_no_occurrence:
  "\<not> contains sep s \<Longrightarrow> split_from sep cur s = [cur @ s]"
proof (induction s arbitrary: cur)
  case Nil
  then show ?case by (simp add: split_from.simps)
next
  case (Cons c cs)
  then have a: "\<not> startswith (c # cs) sep" and b: "\<not> contains sep cs" by auto
  show ?case
    by (subst split_from.simps) (simp add: a Cons.IH[OF b])
qed

lemma split_from_at_sep:
  assumes "sep \<noteq> []"
  shows "split_from sep cur (sep @ rest) = cur # split_from sep [] rest"
  using assms by (subst split_from.simps) (simp add: startswith_def)

lemma split_marker_line:
  assumes "\<not> contains ''EFRO_SYNC_HASH='' hs"
  shows "split (''# EFRO_SYNC_HASH='' @ hs) ''EFRO_SYNC_HASH='' = [''# '', hs]"
proof -
  have "split_from ''EFRO_SYNC_HASH='' [] (''# EFRO_SYNC_HASH='' @ hs)
        = split_from ''EFRO_SYNC_HASH='' ''#'' ('' EFRO_SYNC_HASH='' @ hs)"
    by (subst split_from.simps) (simp add: startswith_def)
  also have "\<dots> = split_from ''EFRO_SYNC_HASH='' ''# '' (''EFRO_SYNC_HASH='' @ hs)"
    by (subst split_from.simps) (simp add: startswith_def)
  also have "\<dots> = ''# '' # split_from ''EFRO_SYNC_HASH='' [] hs"
    by (rule split_from_at_sep) simp
  also have "\<dots> = [''# '', hs]"
    by (simp add: split_from_no_occurrence[OF assms])
  finally show ?thesis by (simp add: split_def)
qed

lemma contains_marker_line: "contains ''EFRO_SYNC_HASH'' (''# EFRO_SYNC_HASH='' @ hs)"
proof -
  have "''# EFRO_SYNC_HASH='' @ hs = ''# '' @ ''EFRO_SYNC_HASH'' @ (''='' @ hs)" by simp
  then show ?thesis unfolding contains_iff by blast
qed

lemma join_Cons_LF: "join [LF] (x # ls) @ [LF] = x @ LF # unlines ls"
  using join_LF_unlines[of "x # ls"] by (simp add: unlines_def)

lemma splitlines_marked:
  assumes p: "\<forall>c\<in>set src_proj. \<not> linebreak c"
  shows "splitlines (join [LF] ((''# Synced from '' @ src_proj @ ''.'' @ [LF] @
                      ''# EFRO_SYNC_HASH='' @ string_hash srcdata @ [LF] @ ''#'') # splitlines srcdata) @ [LF])
         = (''# Synced from '' @ src_proj @ ''.'') # (''# EFRO_SYNC_HASH='' @ string_hash srcdata)
           # ''#'' # splitlines srcdata"
proof -
  let ?h1 = "''# Synced from '' @ src_proj @ ''.''"
  let ?h2 = "''# EFRO_SYNC_HASH='' @ string_hash srcdata"
  let ?ls = "splitlines srcdata"
  have nb: "\<forall>l\<in>set ?ls. \<forall>c\<in>set l. \<not> linebreak c"
    using splitlines_nobreak by blast
  have n1: "\<forall>c\<in>set ?h1. \<not> linebreak c"
    using p by (auto simp: linebreak_def)
  have n2: "\<forall>c\<in>set ?h2. \<not> linebreak c"
    using string_hash_nobreak[of _ srcdata] by (auto simp: linebreak_def)
  have n3: "\<forall>c\<in>set ''#''. \<not> linebreak c"
    by (simp add: linebreak_def)
  have "join [LF] ((?h1 @ [LF] @ ?h2 @ [LF] @ ''#'') # ?ls) @ [LF]
        = ?h1 @ LF # ?h2 @ LF # ''#'' @ LF # unlines ?ls"
    by (simp add: join_Cons_LF)
  then show ?thesis
    using splitlines_line[OF n1] splitlines_line[OF n2] splitlines_line[OF n3]
      splitlines_unlines[OF nb] by simp
qed

lemma dst_info_add_marker:
  assumes p: "\<forall>c\<in>set src_proj. \<not> linebreak c"
    and enc: "add_marker src_proj content = Inr marked"
  shows "dst_info dstfile marked
         = Inr (string_hash content, string_hash (normal_text content), normal_text content)"
proof -
  define h1 where "h1 = ''# Synced from '' @ src_proj @ ''.''"
  define h2 where "h2 = ''# EFRO_SYNC_HASH='' @ string_hash content"
  from enc have m: "marked = join [LF] ((''# Synced from '' @ src_proj @ ''.'' @ [LF] @
                      ''# EFRO_SYNC_HASH='' @ string_hash content @ [LF] @ ''#'') # splitlines content) @ [LF]"
    by (auto simp: add_marker_def Let_def split: if_splits)
  have sl: "splitlines marked = h1 # h2 # ''#'' # splitlines content"
    unfolding m h1_def h2_def by (rule splitlines_marked[OF p])
  have c: "contains ''EFRO_SYNC_HASH'' h2"
    unfolding h2_def by (rule contains_marker_line)
  have sp: "split h2 ''EFRO_SYNC_HASH='' = [''# '', string_hash content]"
    unfolding h2_def by (rule split_marker_line[OF string_hash_no_marker])
  show ?thesis
    unfolding dst_info_def sl
    by (simp add: Let_def c sp normal_text_def)
qed

lemma splitlines_Cons:
  "splitlines (c # cs) =
     (if linebreak c
      then [] # splitlines (if c = CR \<and> cs \<noteq> [] \<and> hd cs = LF then tl cs else cs)
      else (case splitlines cs of [] \<Rightarrow> [[c]] | l # ls \<Rightarrow> (c # l) # ls))"
proof (cases "linebreak c")
  case True
  then show ?thesis by (subst splitlines.simps) simp
next
  case False
  show ?thesis
  proof (cases cs)
    case Nil
    with False show ?thesis by (subst splitlines.simps) simp
  next
    case (Cons d ds)
    have "splitlines (c # cs) = (c # takeWhile (\<lambda>c. \<not> linebreak c) cs) #
            (case dropWhile (\<lambda>c. \<not> linebreak c) cs of [] \<Rightarrow> []
             | c # rest \<Rightarrow> splitlines (if c = CR \<and> rest \<noteq> [] \<and> hd rest = LF then tl rest else rest))"
      using False by (subst splitlines.simps) simp
    moreover have "splitlines cs = takeWhile (\<lambda>c. \<not> linebreak c) cs #
            (case dropWhile (\<lambda>c. \<not> linebreak c) cs of [] \<Rightarrow> []
             | c # rest \<Rightarrow> splitlines (if c = CR \<and> rest \<noteq> [] \<and> hd rest = LF then tl rest else rest))"
      using Cons by (subst splitlines.simps) simp
    ultimately show ?thesis using False by simp
  qed
qed

subsection \<open>The file tree\<close>

lemma lookup_put_file_same: "put_file t p s = Inr t' \<Longrightarrow> lookup t' p = Some (File s)"
proof (induction t p s arbitrary: t' rule: put_file.induct)
  case (4 es x xs s)
  then show ?case
    by (auto simp: update_conv' split: option.splits if_splits sum.splits)
qed auto

lemma file_at_put_file_other:
  "put_file t p s = Inr t' \<Longrightarrow> q \<noteq> p \<Longrightarrow> file_at t' q = file_at t q"
proof (induction t p s arbitrary: t' q rule: put_file.induct)
  case (1 c s)
  then show ?case by (cases q) (auto simp: file_at_def)
next
  case (4 es x xs s)
  show ?case
  proof (cases q)
    case Nil
    with 4(2) show ?thesis
      by (auto simp: file_at_def split: option.splits if_splits sum.splits)
  next
    case (Cons y ys)
    show ?thesis
    proof (cases "y = x")
      case False
      with 4(2) Cons show ?thesis
        by (auto simp: file_at_def update_conv' split: option.splits if_splits sum.splits)
    next
      case True
      show ?thesis
      proof (cases "map_of es x")
        case None
        with 4(2) have xs: "xs = []" and t': "t' = Dir (AList.update x (File s) es)"
          by (auto split: if_splits)
        from xs Cons True 4(3) obtain z zs where "ys = z # zs" by (cases ys) auto
        with None t' Cons True show ?thesis
          by (simp add: file_at_def update_conv')
      next
        case (Some n)
        with 4(2) obtain n' where n': "put_file n xs s = Inr n'"
          and t': "t' = Dir (AList.update x n' es)"
          by (auto split: sum.splits)
        from Cons True 4(3) have "ys \<noteq> xs" by simp
        from 4(1)[OF Some n' this] have "file_at n' ys = file_at n ys" .
        with Some t' Cons True show ?thesis
          by (simp add: file_at_def update_conv')
      qed
    qed
  qed
qed auto

lemma put_file_existing: "lookup t p = Some (File c) \<Longrightarrow> \<exists>t'. put_file t p s = Inr t'"
proof (induction t p s rule: put_file.induct)
  case (4 es x xs s)
  then show ?case by (cases "map_of es x") auto
qed auto

lemma put_file_new:
  "p \<noteq> [] \<Longrightarrow> lookup t (butlast p) = Some (Dir es') \<Longrightarrow> lookup t p = None
   \<Longrightarrow> \<exists>t'. put_file t p s = Inr t'"
proof (induction t p s arbitrary: es' rule: put_file.induct)
  case (4 es x xs s)
  show ?case
  proof (cases "map_of es x")
    case None
    with 4(3) show ?thesis by (cases xs) auto
  next
    case (Some n)
    with 4(4) have xs: "xs \<noteq> []" by auto
    with 4(3) Some have "lookup n (butlast xs) = Some (Dir es')" by simp
    moreover from 4(4) Some have "lookup n xs = None" by simp
    ultimately obtain n' where "put_file n xs s = Inr n'"
      using 4(1)[OF Some xs] by blast
    with Some show ?thesis by simp
  qed
qed (auto split: if_splits)

lemma file_at_mkdirs: "mkdirs t p = Inr t' \<Longrightarrow> file_at t' q = file_at t q"
proof (induction t p arbitrary: t' q rule: mkdirs.induct)
  case (3 es x xs)
  let ?n = "case map_of es x of None \<Rightarrow> Dir [] | Some n \<Rightarrow> n"
  from 3(2) obtain n' where n': "mkdirs ?n xs = Inr n'" and t': "t' = Dir (AList.update x n' es)"
    by (auto split: sum.splits)
  show ?case
  proof (cases q)
    case Nil
    with t' show ?thesis by (simp add: file_at_def)
  next
    case (Cons y ys)
    show ?thesis
    proof (cases "y = x")
      case False
      with Cons t' show ?thesis by (simp add: file_at_def update_conv')
    next
      case True
      from 3(1)[OF n'] have "file_at n' ys = file_at ?n ys" .
      moreover have "file_at (Dir []) ys = None" by (cases ys) (simp_all add: file_at_def)
      ultimately show ?thesis using Cons True t'
        by (auto simp: file_at_def update_conv' split: option.splits)
    qed
  qed
qed auto

lemma mkdirs_is_dir: "mkdirs t p = Inr t' \<Longrightarrow> \<exists>es. lookup t' p = Some (Dir es)"
proof (induction t p arbitrary: t' rule: mkdirs.induct)
  case (3 es x xs)
  then show ?case by (auto simp: update_conv' split: sum.splits)
qed auto

lemma mkdirs_noop: "lookup t p = Some (Dir es') \<Longrightarrow> mkdirs t p = Inr t"
proof (induction t p arbitrary: es' rule: mkdirs.induct)
  case (1 c p)
  then show ?case by (cases p) auto
next
  case (3 es x xs)
  then obtain n where n: "map_of es x = Some n" and l: "lookup n xs = Some (Dir es')"
    by (auto split: option.splits)
  from l n have "lookup (case map_of es x of None \<Rightarrow> Dir [] | Some n \<Rightarrow> n) xs = Some (Dir es')"
    by simp
  from 3(1)[OF this] n have "mkdirs n xs = Inr n" by simp
  with n show ?case by (simp add: update_triv)
qed auto

lemma mkdirs_absent:
  "mkdirs t q = Inr t' \<Longrightarrow> lookup t (q @ [x]) = None \<Longrightarrow> lookup t' (q @ [x]) = None"
proof (induction t q arbitrary: t' rule: mkdirs.induct)
  case (3 es y ys)
  let ?n = "case map_of es y of None \<Rightarrow> Dir [] | Some n \<Rightarrow> n"
  from 3(2) obtain n' where n': "mkdirs ?n ys = Inr n'" and t': "t' = Dir (AList.update y n' es)"
    by (auto split: sum.splits)
  have "lookup ?n (ys @ [x]) = None"
    using 3(3) by (cases ys) (auto split: option.splits)
  from 3(1)[OF n' this] t' show ?case by (simp add: update_conv')
qed auto

lemma file_parent_dir:
  "lookup t p = Some (File c) \<Longrightarrow> p \<noteq> [] \<Longrightarrow> \<exists>es. lookup t (butlast p) = Some (Dir es)"
proof (induction t p rule: lookup.induct)
  case (3 es x xs)
  then show ?case by (cases xs) (auto split: option.splits)
qed auto

subsection \<open>Reading and writing in the world\<close>

lemma is_file_file_at: "is_file w p \<longleftrightarrow> file_at (tree w) p \<noteq> None"
  by (auto simp: is_file_def file_at_def split: option.splits node.splits)

lemma read_text_file_at:
  "read_text w p = (case file_at (tree w) p of Some c \<Rightarrow> Inr c | None \<Rightarrow> Inl OSError)"
  by (auto simp: read_text_def file_at_def split: option.splits node.splits)

lemma read_text_Inr_iff: "read_text w p = Inr c \<longleftrightarrow> file_at (tree w) p = Some c"
  by (auto simp: read_text_file_at split: option.splits)

lemma read_text_is_file: "read_text w p = Inr c \<Longrightarrow> is_file w p"
  by (simp add: read_text_Inr_iff is_file_file_at)

lemma get_dst_file_info_is_file: "get_dst_file_info w p = Inr r \<Longrightarrow> is_file w p"
  by (auto simp: get_dst_file_info_def dest: read_text_is_file split: sum.splits)


lemma same_file:
  assumes "file_at (tree w') p = file_at (tree w) p"
  shows "read_text w' p = read_text w p" and "is_file w' p = is_file w p"
    and "get_dst_file_info w' p = get_dst_file_info w p"
  using assms by (simp_all add: read_text_file_at is_file_file_at get_dst_file_info_def)

lemma mkdir_parents_files:
  assumes "mkdir_parents w p = Inr w1"
  shows "file_at (tree w1) q = file_at (tree w) q" and "events w1 = events w"
  using assms by (auto simp: mkdir_parents_def file_at_mkdirs split: sum.splits)

lemma mkdir_parents_of_file:
  assumes "is_file w d" and "d \<noteq> []"
  shows "mkdir_parents w (parent d) = Inr w"
proof -
  from assms(1) obtain c where "lookup (tree w) d = Some (File c)"
    by (auto simp: is_file_def split: option.splits node.splits)
  from file_parent_dir[OF this assms(2)] obtain es
    where "lookup (tree w) (butlast d) = Some (Dir es)" by blast
  from mkdirs_noop[OF this] show ?thesis by (simp add: mkdir_parents_def parent_def)
qed

lemma open_w_facts:
  assumes "open_w w p = Inr w1"
  shows "file_at (tree w1) p = Some []" and "\<And>q. q \<noteq> p \<Longrightarrow> file_at (tree w1) q = file_at (tree w) q"
    and "events w1 = events w @ [Wrote p]"
  using assms
  by (auto simp: open_w_def file_at_def lookup_put_file_same
      dest: file_at_put_file_other[unfolded file_at_def] split: sum.splits)

lemma file_write_facts:
  assumes "file_at (tree w) p = Some c"
  shows "file_at (tree (file_write w p s)) p = Some s"
    and "\<And>q. q \<noteq> p \<Longrightarrow> file_at (tree (file_write w p s)) q = file_at (tree w) q"
    and "events (file_write w p s) = events w"
proof -
  from assms have "\<exists>c. lookup (tree w) p = Some (File c)"
    by (auto simp: file_at_def split: option.splits node.splits)
  then obtain t' where t': "put_file (tree w) p s = Inr t'"
    using put_file_existing by blast
  then have fw: "file_write w p s = w\<lparr>tree := t'\<rparr>" by (simp add: file_write_def)
  show "file_at (tree (file_write w p s)) p = Some s"
    using lookup_put_file_same[OF t'] by (simp add: fw file_at_def)
  show "\<And>q. q \<noteq> p \<Longrightarrow> file_at (tree (file_write w p s)) q = file_at (tree w) q"
    using file_at_put_file_other[OF t'] by (simp add: fw)
  show "events (file_write w p s) = events w" by (simp add: fw)
qed


lemma write_marked_facts:
  assumes "write_marked src_proj w p data = (w', Inr u)"
  shows "\<exists>marked. add_marker src_proj data = Inr marked \<and> file_at (tree w') p = Some marked"
    and "\<And>q. q \<noteq> p \<Longrightarrow> file_at (tree w') q = file_at (tree w) q"
    and "events w' = events w @ [Wrote p]"
proof -
  from assms obtain w1 marked where o: "open_w w p = Inr w1"
    and m: "add_marker src_proj data = Inr marked"
    and w': "w' = file_write w1 p marked"
    by (auto simp: write_marked_def split: sum.splits)
  note f = file_write_facts[OF open_w_facts(1)[OF o], where s = marked]
  show "\<exists>marked. add_marker src_proj data = Inr marked \<and> file_at (tree w') p = Some marked"
    using f(1) w' m by simp
  show "\<And>q. q \<noteq> p \<Longrightarrow> file_at (tree w') q = file_at (tree w) q"
    using f(2) open_w_facts(2)[OF o] w' by simp
  show "events w' = events w @ [Wrote p]" using f(3) open_w_facts(3)[OF o] w' by simp
qed

lemma open_w_existing: "is_file w p \<Longrightarrow> \<exists>w1. open_w w p = Inr w1"
proof -
  assume "is_file w p"
  then obtain c where "lookup (tree w) p = Some (File c)"
    by (auto simp: is_file_def split: option.splits node.splits)
  from put_file_existing[OF this, of "[]"] show ?thesis by (auto simp: open_w_def)
qed

lemma open_w_new:
  assumes "mkdir_parents w (parent p) = Inr w1" and "\<not> path_exists w p"
  shows "\<exists>w2. open_w w1 p = Inr w2"
proof -
  from assms(2) have none: "lookup (tree w) p = None" by (simp add: path_exists_def)
  then have ne: "p \<noteq> []" by auto
  from assms(1) obtain t where t: "mkdirs (tree w) (butlast p) = Inr t" and w1: "w1 = w\<lparr>tree := t\<rparr>"
    by (auto simp: mkdir_parents_def parent_def split: sum.splits)
  from mkdirs_is_dir[OF t] obtain es where d: "lookup t (butlast p) = Some (Dir es)" by blast
  from ne have "p = butlast p @ [last p]" by simp
  with none mkdirs_absent[OF t, of "last p"] have "lookup t p = None" by simp
  from put_file_new[OF ne d this, of "[]"] w1 show ?thesis by (auto simp: open_w_def)
qed

lemma write_marked_ok:
  assumes "open_w w p = Inr w1" and "add_marker src_proj data = Inr marked"
  shows "\<exists>w'. write_marked src_proj w p data = (w', Inr ())"
  using assms by (simp add: write_marked_def)

lemma write_text_ok:
  assumes "open_w w p = Inr w1"
  shows "\<exists>w'. write_text w p data = (w', Inr ())"
  using assms by (simp add: write_text_def)

subsection \<open>One pair, and the loop over the pairs\<close>

lemma sync_files_append:
  "sync_files src_proj mode (xs @ ys) w changed =
     (case sync_files src_proj mode xs w changed of
        (w', Inl e) \<Rightarrow> (w', Inl e)
      | (w', Inr changed') \<Rightarrow> sync_files src_proj mode ys w' changed')"
  by (induction xs arbitrary: w changed) (auto split: prod.splits sum.splits)

lemma normal_text_lines:
  assumes "\<forall>l\<in>set ls. \<forall>c\<in>set l. \<not> linebreak c"
  shows "normal_text (join [LF] ls @ [LF]) = join [LF] ls @ [LF]"
proof (cases "ls = []")
  case True
  then show ?thesis by (simp add: normal_text_def splitlines_Cons)
next
  case False
  with assms show ?thesis
    by (simp add: normal_text_def join_LF_unlines splitlines_unlines)
qed

lemma dst_info_body:
  assumes "dst_info f data = Inr (m, h, body)"
  shows "normal_text body = body" and "h = string_hash body"
proof -
  from assms have b: "body = join [LF] (drop 3 (splitlines data)) @ [LF]"
    and h: "h = string_hash body"
    by (auto simp: dst_info_def Let_def split: if_splits)
  have "\<forall>l\<in>set (drop 3 (splitlines data)). \<forall>c\<in>set l. \<not> linebreak c"
    by (meson in_set_dropD splitlines_nobreak)
  from normal_text_lines[OF this] b show "normal_text body = body" by simp
  from h show "h = string_hash body" .
qed

lemma sync_file_consistent:
  assumes "read_text w srcfile = Inr srcdata"
    and "get_dst_file_info w dstfile = Inr (string_hash srcdata, string_hash srcdata, dstdata)"
    and "dstfile \<noteq> []" and "mode \<noteq> FORCE"
  shows "sync_file src_proj mode (srcfile, dstfile) w changed = (w, Inr changed)"
proof -
  have d: "is_file w dstfile" by (rule get_dst_file_info_is_file[OF assms(2)])
  have s: "is_file w srcfile" by (rule read_text_is_file[OF assms(1)])
  show ?thesis
    by (simp add: sync_file_def Let_def s d mkdir_parents_of_file[OF d assms(3)] assms)
qed

lemma sync_file_conflict:
  assumes "dst_changed_only w (srcfile, dstfile)" and "dstfile \<noteq> []"
  shows "sync_file src_proj PULL (srcfile, dstfile) w changed = (w, Inr (changed @ [dstfile]))"
proof -
  from assms(1) obtain srcdata marker_hash dst_hash dstdata
    where r: "read_text w srcfile = Inr srcdata"
      and g: "get_dst_file_info w dstfile = Inr (marker_hash, dst_hash, dstdata)"
      and h: "string_hash srcdata = marker_hash" "dst_hash \<noteq> marker_hash"
    by (auto simp: dst_changed_only_def split: sum.splits)
  have d: "is_file w dstfile" by (rule get_dst_file_info_is_file[OF g])
  have s: "is_file w srcfile" by (rule read_text_is_file[OF r])
  show ?thesis
    by (simp add: sync_file_def Let_def s d mkdir_parents_of_file[OF d assms(2)] r g h)
qed

lemma sync_file_diverged:
  assumes "mode \<in> {PULL, FULL, LIST}"
    and "read_text w srcfile = Inr srcdata"
    and "dstfile \<noteq> []"
    and "get_dst_file_info w dstfile = Inr (marker_hash, dst_hash, dstdata)"
    and "marker_hash \<noteq> string_hash srcdata"
    and "marker_hash \<noteq> dst_hash"
    and "string_hash srcdata \<noteq> dst_hash"
  shows "sync_file src_proj mode (srcfile, dstfile) w changed
         = (w, Inl (RuntimeError (BothChanged srcfile dstfile)))"
proof -
  have d: "is_file w dstfile" by (rule get_dst_file_info_is_file[OF assms(4)])
  have s: "is_file w srcfile" by (rule read_text_is_file[OF assms(2)])
  from assms(1) have m: "mode \<noteq> FORCE" by auto
  from assms(5) have n: "string_hash srcdata \<noteq> marker_hash" by simp
  show ?thesis
    using assms(5,6,7) m
    by (auto simp add: sync_file_def Let_def s d mkdir_parents_of_file[OF d assms(3)] assms(2,4))
qed

lemma sync_file_changed:
  "sync_file src_proj mode pr w changed =
     (case sync_file src_proj mode pr w [] of
        (w', Inl e) \<Rightarrow> (w', Inl e)
      | (w', Inr c) \<Rightarrow> (w', Inr (changed @ c)))"
  by (auto simp: sync_file_def Let_def split: prod.splits sum.splits)

lemma sync_file_world: 
  "fst (sync_file src_proj mode pr w changed) = fst (sync_file src_proj mode pr w [])"
  by (subst sync_file_changed) (auto split: prod.splits sum.splits)

lemma sync_file_pull_changed:
  assumes "sync_file src_proj PULL (srcfile, dstfile) w changed = (w', Inr changed')"
  shows "changed' = changed @ (if dst_changed_only w (srcfile, dstfile) then [dstfile] else [])"
proof -
  from assms obtain w1 srcdata where m: "mkdir_parents w (parent dstfile) = Inr w1"
    and r1: "read_text w1 srcfile = Inr srcdata"
    by (auto simp: sync_file_def Let_def split: if_splits sum.splits)
  note same = same_file[OF mkdir_parents_files(1)[OF m]]
  have r: "read_text w srcfile = Inr srcdata" using r1 same(1) by simp
  have s: "is_file w srcfile" by (rule read_text_is_file[OF r])
  have g: "get_dst_file_info w1 dstfile = get_dst_file_info w dstfile"
    by (rule same(3))
  show ?thesis
  proof (cases "is_file w1 dstfile")
    case False
    then have "\<not> is_file w dstfile" using same(2) by simp
    then have "\<not> dst_changed_only w (srcfile, dstfile)"
      by (auto simp: dst_changed_only_def dest: get_dst_file_info_is_file split: sum.splits)
    with assms False show ?thesis
      by (auto simp: sync_file_def Let_def s m r1 split: prod.splits sum.splits)
  next
    case True
    with assms obtain marker_hash dst_hash dstdata
      where gi: "get_dst_file_info w1 dstfile = Inr (marker_hash, dst_hash, dstdata)"
      by (auto simp: sync_file_def Let_def s m r1 split: sum.splits)
    have dc: "dst_changed_only w (srcfile, dstfile)
              \<longleftrightarrow> string_hash srcdata = marker_hash \<and> dst_hash \<noteq> marker_hash"
      using gi g r by (simp add: dst_changed_only_def)
    from assms True show ?thesis
      by (auto simp: sync_file_def Let_def s m r1 gi dc split: prod.splits sum.splits if_splits)
  qed
qed

lemma sync_files_pull_changed:
  "sync_files src_proj PULL prs w changed = (w', Inr changed')
   \<Longrightarrow> changed' = changed @ pending_conflicts src_proj prs w"
proof (induction prs arbitrary: w changed)
  case Nil
  then show ?case by simp
next
  case (Cons pr prs)
  obtain srcfile dstfile where pr: "pr = (srcfile, dstfile)" by (cases pr)
  from Cons.prems obtain w1 c1 where
    st: "sync_file src_proj PULL pr w changed = (w1, Inr c1)"
    and rest: "sync_files src_proj PULL prs w1 c1 = (w', Inr changed')"
    by (auto split: prod.splits sum.splits)
  from sync_file_pull_changed[OF st[unfolded pr]]
  have c1: "c1 = changed @ (if dst_changed_only w pr then [snd pr] else [])"
    by (simp add: pr)
  have "fst (sync_file src_proj PULL pr w []) = w1"
    using sync_file_world[of src_proj PULL pr w changed] st by simp
  with Cons.IH[OF rest] c1 show ?case by simp
qed

lemma after_write_marked:
  assumes "write_marked src_proj w dstfile content = (w', Inr u)"
    and "file_at (tree w) srcfile = Some content"
    and "srcfile \<noteq> dstfile"
    and "normal_text content = content"
    and "\<forall>c\<in>set src_proj. \<not> linebreak c"
  shows "read_text w' srcfile = Inr content"
    and "get_dst_file_info w' dstfile
         = Inr (string_hash content, string_hash content, content)"
proof -
  note f = write_marked_facts[OF assms(1)]
  from f(1) obtain marked where m: "add_marker src_proj content = Inr marked"
    and d: "file_at (tree w') dstfile = Some marked" by blast
  show "read_text w' srcfile = Inr content"
    using f(2)[OF assms(3)] assms(2) by (simp add: read_text_Inr_iff)
  show "get_dst_file_info w' dstfile
         = Inr (string_hash content, string_hash content, content)"
    using d dst_info_add_marker[OF assms(5) m, of dstfile] assms(4)
    by (simp add: get_dst_file_info_def read_text_file_at)
qed

lemma add_marker_ok:
  "\<not> (length (splitlines content) > 1 \<and> contains ''EFRO_SYNC_HASH='' (splitlines content ! 1))
   \<Longrightarrow> \<exists>marked. add_marker src_proj content = Inr marked"
  by (auto simp: add_marker_def Let_def)

lemma is_file_not_dir: "is_file w p \<Longrightarrow> \<not> is_dir w p"
  by (auto simp: is_file_def is_dir_def split: option.splits node.splits)



text \<open>What a destination just written decodes to, whatever the text.\<close>

lemma info_after_write_marked_any:
  assumes "write_marked src_proj w dstfile content = (w', Inr u)"
    and "\<forall>c\<in>set src_proj. \<not> linebreak c"
  shows "get_dst_file_info w' dstfile
         = Inr (string_hash content, string_hash (normal_text content), normal_text content)"
proof -
  note f = write_marked_facts[OF assms(1)]
  from f(1) obtain marked where m: "add_marker src_proj content = Inr marked"
    and d: "file_at (tree w') dstfile = Some marked" by blast
  show ?thesis
    using d dst_info_add_marker[OF assms(2) m, of dstfile]
    by (simp add: get_dst_file_info_def read_text_file_at)
qed


subsection \<open>The shape of the tree\<close>











subsection \<open>Removal\<close>





subsection \<open>The walk\<close>







subsection \<open>What a run leaves of the shape\<close>


















subsection \<open>Pairs at rest\<close>






subsection \<open>Paths under two directories that do not contain each other\<close>


subsection \<open>The loop in PULL and FULL mode\<close>



subsection \<open>The pairs of a run\<close>





subsection \<open>Pruning\<close>












subsection \<open>The loop in LIST mode\<close>








subsection \<open>The errors a turn can raise\<close>












subsection \<open>The worked examples, evaluated\<close>

lemma replicate_numeral: "replicate (numeral k) x = x # replicate (pred_numeral k) x"
  by (simp add: numeral_eq_Suc)

lemmas md5_eval = string_hash_def utf8_def md5_def md5_pad_def blocks.simps md5_table_def
  le_bytes4_def add32_def not32_def rotl32_def from_bytes_big_def replicate_numeral
  md5_rounds.simps md5_add.simps md5_block.simps md5_output.simps str_nat.simps digit_char_def

lemma hash_x1_lf:
  "string_hash [CHR ''x'', CHR ''='', CHR ''1'', LF] = ''331522703481584221736678623746454329871''"
  by (simp add: md5_eval)

lemma hash_x2_lf:
  "string_hash [CHR ''x'', CHR ''='', CHR ''2'', LF] = ''134084616317733262001561606097025764995''"
  by (simp add: md5_eval)

lemma hash_x1:
  "string_hash [CHR ''x'', CHR ''='', CHR ''1''] = ''215777927197740564177945756004471525997''"
  by (simp add: md5_eval)

lemmas string_eval = splitlines_Cons linebreak_def startswith_def endswith_def basename_def
  split_def split_from.simps hash_x1_lf hash_x2_lf hash_x1

lemma example_hash_src:
  "string_hash (''x=1'' @ [LF]) = ''331522703481584221736678623746454329871''"
  by (simp add: string_eval)

lemma example_hash_dst:
  "string_hash (''x=2'' @ [LF]) = ''134084616317733262001561606097025764995''"
  by (simp add: string_eval)

lemma conflict_read_src:
  "read_text conflict_world [''src'', ''a.py''] = Inr (''x=1'' @ [LF])"
  by (simp add: conflict_world_def example_world_def read_text_def)

lemma conflict_info_dst:
  "get_dst_file_info conflict_world [''dst'', ''a.py'']
   = Inr (''331522703481584221736678623746454329871'', ''134084616317733262001561606097025764995'', ''x=2'' @ [LF])"
  by (simp add: conflict_world_def example_world_def marked_file_def get_dst_file_info_def
      read_text_def dst_info_def string_eval)

lemma conflict_is_dir: "is_dir conflict_world [''src'']" "is_dir conflict_world [''dst'']"
  by (simp_all add: conflict_world_def example_world_def is_dir_def)

lemma conflict_all_paths:
  "all_paths conflict_world [''src''] [''dst'']
   = Inr [([''src'', ''a.py''], [''dst'', ''a.py''])]"
  by (simp add: conflict_world_def example_world_def marked_file_def all_paths_def is_file_def
      os_walk_def valid_filename_def relative_to_def string_eval)

lemma conflict_kill_paths:
  "kill_paths conflict_world [''src''] [''dst''] = []"
  by (simp add: conflict_world_def example_world_def marked_file_def kill_paths_def kill_names_def
      os_walk_def path_exists_def relative_to_def path_str_def string_eval)

lemma diverged_read_src:
  "read_text diverged_world [''src'', ''a.py''] = Inr (''x=1'' @ [LF])"
  by (simp add: diverged_world_def example_world_def read_text_def)

lemma diverged_info_dst:
  "get_dst_file_info diverged_world [''dst'', ''a.py'']
   = Inr (''65112394118703306444922135359299503413'', ''134084616317733262001561606097025764995'', ''x=2'' @ [LF])"
  by (simp add: diverged_world_def example_world_def marked_file_def get_dst_file_info_def
      read_text_def dst_info_def string_eval)

lemma diverged_is_dir: "is_dir diverged_world [''src'']" "is_dir diverged_world [''dst'']"
  by (simp_all add: diverged_world_def example_world_def is_dir_def)

lemma diverged_all_paths:
  "all_paths diverged_world [''src''] [''dst'']
   = Inr [([''src'', ''a.py''], [''dst'', ''a.py''])]"
  by (simp add: diverged_world_def example_world_def marked_file_def all_paths_def is_file_def
      os_walk_def valid_filename_def relative_to_def string_eval)

lemma diverged_kill_paths:
  "kill_paths diverged_world [''src''] [''dst''] = []"
  by (simp add: diverged_world_def example_world_def marked_file_def kill_paths_def kill_names_def
      os_walk_def path_exists_def relative_to_def path_str_def string_eval)

lemma converged_read_src:
  "read_text converged_world [''src'', ''a.py''] = Inr (''x=1'' @ [LF])"
  by (simp add: converged_world_def example_world_def read_text_def)

lemma converged_info_dst:
  "get_dst_file_info converged_world [''dst'', ''a.py'']
   = Inr (''65112394118703306444922135359299503413'', ''331522703481584221736678623746454329871'', ''x=1'' @ [LF])"
  by (simp add: converged_world_def example_world_def marked_file_def get_dst_file_info_def
      read_text_def dst_info_def string_eval)

lemma converged_is_dir: "is_dir converged_world [''src'']" "is_dir converged_world [''dst'']"
  by (simp_all add: converged_world_def example_world_def is_dir_def)

lemma converged_all_paths:
  "all_paths converged_world [''src''] [''dst'']
   = Inr [([''src'', ''a.py''], [''dst'', ''a.py''])]"
  by (simp add: converged_world_def example_world_def marked_file_def all_paths_def is_file_def
      os_walk_def valid_filename_def relative_to_def string_eval)

lemma converged_kill_paths:
  "kill_paths converged_world [''src''] [''dst''] = []"
  by (simp add: converged_world_def example_world_def marked_file_def kill_paths_def kill_names_def
      os_walk_def path_exists_def relative_to_def path_str_def string_eval)
lemma conflict_world_state:
  "dst_changed_only conflict_world ([''src'', ''a.py''], [''dst'', ''a.py''])"
  by (simp add: dst_changed_only_def conflict_info_dst conflict_read_src
      example_hash_src[simplified])

lemma conflict_world_pull:
  "sync_files ''proj'' PULL [([''src'', ''a.py''], [''dst'', ''a.py''])] conflict_world []
   = (conflict_world, Inr [[''dst'', ''a.py'']])"
  using sync_file_conflict[OF conflict_world_state, of "''proj''" "[]"] by simp

lemma fresh_read_src:
  "read_text fresh_world [''src'', ''sub'', ''a.py''] = Inr (''x=1'' @ [LF])"
  by (simp add: fresh_world_def read_text_def)

lemma fresh_no_dst: "\<not> path_exists fresh_world [''dst'', ''sub'', ''a.py'']"
  "\<not> path_exists fresh_world [''dst'']"
  by (simp_all add: fresh_world_def path_exists_def)

lemma fresh_mkdir:
  "mkdir_parents fresh_world (parent [''dst'', ''sub'', ''a.py'']) = Inr fresh_world_dirs"
  by (simp add: fresh_world_def fresh_world_dirs_def mkdir_parents_def parent_def)

lemma fresh_dirs_facts:
  "is_dir fresh_world_dirs [''dst'', ''sub'']"
  "\<not> path_exists fresh_world_dirs [''dst'', ''sub'', ''a.py'']"
  "events fresh_world_dirs = []"
  by (simp_all add: fresh_world_dirs_def is_dir_def path_exists_def)

lemma fresh_all_paths:
  "all_paths fresh_world [''src''] [''dst'']
   = Inr [([''src'', ''sub'', ''a.py''], [''dst'', ''sub'', ''a.py''])]"
  by (simp add: fresh_world_def all_paths_def is_file_def os_walk_def valid_filename_def
      relative_to_def string_eval)

lemma fresh_list_step:
  "sync_file ''proj'' LIST ([''src'', ''sub'', ''a.py''], [''dst'', ''sub'', ''a.py''])
     fresh_world [] = (fresh_world_dirs, Inr [])"
proof -
  have r1: "read_text fresh_world_dirs [''src'', ''sub'', ''a.py''] = Inr (''x=1'' @ [LF])"
    by (simp add: fresh_world_dirs_def read_text_def)
  have nd: "\<not> is_file fresh_world_dirs [''dst'', ''sub'', ''a.py'']"
    by (simp add: fresh_world_dirs_def is_file_def)
  show ?thesis
    by (simp add: sync_file_def Let_def read_text_is_file[OF fresh_read_src] fresh_mkdir r1 nd)
qed

lemma fresh_dirs_kill_paths: "kill_paths fresh_world_dirs [''src''] [''dst''] = []"
  by (simp add: fresh_world_dirs_def kill_paths_def kill_names_def
      os_walk_def path_exists_def relative_to_def path_str_def string_eval)

lemma valid_a_py: "valid_filename ''a.py'' = Inr True"
  by (simp add: valid_filename_def string_eval)




lemmas run_eval = sync_paths_def all_paths_def is_dir_def is_file_def os_walk_def
  valid_filename_def relative_to_def sync_file_def Let_def mkdir_parents_def parent_def
  read_text_def write_marked_def write_text_def open_w_def file_write_def add_marker_def
  get_dst_file_info_def dst_info_def marked_file_def kill_paths_def kill_names_def
  path_exists_def path_str_def string_eval

subsection \<open>Eligible file names\<close>

text \<open>
  Claim C9. A plain file name (one without a slash) is accepted exactly when it is one of
  the seven listed names, or it ends in \<open>.py\<close> or \<open>.pyi\<close> and does not contain
  \<open>flycheck_\<close>.
\<close>

theorem valid_filename_accepts_iff:
  assumes "CHR ''/'' \<notin> set fname"
  shows "valid_filename fname = Inr
           (fname \<in> {''requirements.txt'', ''pylintrc'', ''clang-format'', ''pycheckers'',
                      ''style.yapf'', ''test_task_bin'', ''.editorconfig''}
            \<or> ((\<exists>stem. fname = stem @ ''.py'') \<or> (\<exists>stem. fname = stem @ ''.pyi''))
               \<and> \<not> (\<exists>a b. fname = a @ ''flycheck_'' @ b))"
proof -
  have b: "basename fname = fname" using assms by (simp add: basename_id_iff)
  show ?thesis
    unfolding valid_filename_def
    by (simp only: b endswith_iff contains_iff list_ex_Nil_iff list_ex_Cons_iff) auto
qed

theorem valid_filename_accepts_iff_witness:
  "CHR ''/'' \<notin> set ''sync.py'' \<and> valid_filename ''sync.py'' = Inr True
   \<and> valid_filename ''flycheck_sync.py'' = Inr False"
  using valid_filename_accepts_iff [of "''sync.py''"]
  by (simp add: valid_filename_def basename_def endswith_def startswith_def)

subsection \<open>CHECK mode\<close>

text \<open>
  Claim C10. Called in CHECK mode, \<open>sync_paths\<close> raises its \<open>ValueError\<close> at once, whatever
  the paths and the file tree are, and leaves the world as it was: no file is read for the
  answer and nothing is written. (Verification is \<open>check_path\<close>, which takes the world and
  returns none.)
\<close>

theorem sync_paths_check_mode:
  "sync_paths src_proj src dst CHECK w = (w, Inl (ValueError CheckModeCall))"
  by (simp add: sync_paths_def)

subsection \<open>The marker codec\<close>

text \<open>
  Claim C3. \<open>add_marker\<close> computes the hash it embeds from the text as given (line 264)
  and stores the text with its lines joined again by line feeds and closed by one more
  (line 267); \<open>get_dst_file_info\<close> hashes the body it finds in the file (lines 293, 294).
  For the project id \<open>proj\<close> and the text \<open>x=1\<close>, which has no final line feed, the
  marker written is the hash of \<open>x=1\<close> and the body read back is \<open>x=1\<close> with a line feed,
  which hashes to another number: decoding what was just encoded gives neither the
  content nor twice its hash, and a destination written from such a source reads as
  changed since the last sync.
\<close>

theorem add_marker_hash_not_of_stored_body:
  "add_marker ''proj'' ''x=1''
     = Inr (''# Synced from proj.'' @ [LF] @ ''# EFRO_SYNC_HASH=215777927197740564177945756004471525997'' @ [LF] @ ''#'' @ [LF]
            @ ''x=1'' @ [LF])
   \<and> dst_info [''a.py'']
        (''# Synced from proj.'' @ [LF] @ ''# EFRO_SYNC_HASH=215777927197740564177945756004471525997'' @ [LF] @ ''#'' @ [LF]
         @ ''x=1'' @ [LF])
     = Inr (''215777927197740564177945756004471525997'', ''331522703481584221736678623746454329871'', ''x=1'' @ [LF])
   \<and> string_hash ''x=1'' = ''215777927197740564177945756004471525997''
   \<and> ''331522703481584221736678623746454329871'' \<noteq> string_hash ''x=1''
   \<and> ''x=1'' @ [LF] \<noteq> ''x=1''"
proof -
  have e: "add_marker ''proj'' ''x=1''
     = Inr (''# Synced from proj.'' @ [LF] @ ''# EFRO_SYNC_HASH=215777927197740564177945756004471525997'' @ [LF] @ ''#'' @ [LF]
            @ ''x=1'' @ [LF])"
    by (simp add: add_marker_def string_eval)
  have p: "\<forall>c\<in>set ''proj''. \<not> linebreak c" by (simp add: linebreak_def)
  have q: "\<not> list_ex linebreak ''proj''" by (simp add: linebreak_def)
  have "dst_info [''a.py'']
        (''# Synced from proj.'' @ [LF] @ ''# EFRO_SYNC_HASH=215777927197740564177945756004471525997'' @ [LF] @ ''#'' @ [LF]
         @ ''x=1'' @ [LF])
     = Inr (string_hash ''x=1'', string_hash (normal_text ''x=1''),
            normal_text ''x=1'')"
    by (rule dst_info_add_marker[OF p e])
  moreover have "normal_text ''x=1'' = ''x=1'' @ [LF]"
    by (simp add: normal_text_def splitlines_Cons linebreak_def)
  moreover have "string_hash ''x=1'' = ''215777927197740564177945756004471525997''"
    by (simp add: string_eval)
  moreover have "string_hash (''x=1'' @ [LF]) = ''331522703481584221736678623746454329871''"
    by (simp add: string_eval)
  ultimately show ?thesis using e by simp
qed

text \<open>
  Claim C8. The claim holds of the conditions under which decoding fails, not of the
  kind of failure: a text of exactly one line, and a second line that has \<open>EFRO_SYNC_HASH\<close>
  without the equals sign, pass the two checks that raise \<open>ValueError\<close> and then fail in a
  subscript, with \<open>IndexError\<close>.
\<close>

theorem dst_info_index_error:
  "dst_info [''dst'', ''a.py''] (''hello'' @ [LF]) = Inl IndexError
   \<and> dst_info [''dst'', ''a.py'']
        (''# Synced from proj.'' @ [LF] @ ''# EFRO_SYNC_HASH 5'' @ [LF] @ ''#'' @ [LF])
      = Inl IndexError"
  by (simp add: dst_info_def splitlines_Cons linebreak_def startswith_def
        split_def split_from.simps)

subsection \<open>Destination changed, source unchanged\<close>

text \<open>
  Claim C1, as amended. In a PULL run whose loop over the pairs ends without an exception
  of its own, the list of changed destinations is exactly, and in order, the destinations
  of the pairs found with the source's hash equal to the marker's and the destination's
  hash different; when the list is not empty the run ends, after the orphans are pruned,
  with the one \<open>RuntimeError\<close> that carries it; and the turn of such a pair appends its
  destination and leaves the world as it was.
\<close>

theorem pull_conflicts_reported:
  assumes "is_dir w0 src \<or> is_file w0 src"
    and "all_paths w0 src dst = Inr allpaths"
    and "sync_files src_proj PULL allpaths w0 [] = (w1, Inr changed)"
  shows "changed = pending_conflicts src_proj allpaths w0
       \<and> sync_paths src_proj src dst PULL w0
           = (if is_dir w1 dst then remove_orphans PULL (kill_paths w1 src dst) w1 else w1,
              if changed \<noteq> [] then Inl (RuntimeError (DstChanged changed))
              else Inr (length allpaths))
       \<and> (\<forall>srcfile dstfile w c.
             dst_changed_only w (srcfile, dstfile) \<and> dstfile \<noteq> []
             \<longrightarrow> sync_file src_proj PULL (srcfile, dstfile) w c = (w, Inr (c @ [dstfile])))"
proof (intro conjI allI impI)
  show "changed = pending_conflicts src_proj allpaths w0"
    using sync_files_pull_changed[OF assms(3)] by simp
  show "sync_paths src_proj src dst PULL w0
           = (if is_dir w1 dst then remove_orphans PULL (kill_paths w1 src dst) w1 else w1,
              if changed \<noteq> [] then Inl (RuntimeError (DstChanged changed))
              else Inr (length allpaths))"
    using assms by (auto simp: sync_paths_def Let_def)
next
  fix srcfile dstfile w c
  assume "dst_changed_only w (srcfile, dstfile) \<and> dstfile \<noteq> []"
  then show "sync_file src_proj PULL (srcfile, dstfile) w c = (w, Inr (c @ [dstfile]))"
    using sync_file_conflict by blast
qed

theorem pull_conflicts_reported_witness:
  "(is_dir conflict_world [''src''] \<or> is_file conflict_world [''src''])
   \<and> all_paths conflict_world [''src''] [''dst''] = Inr [([''src'', ''a.py''], [''dst'', ''a.py''])]
   \<and> sync_files ''proj'' PULL [([''src'', ''a.py''], [''dst'', ''a.py''])] conflict_world []
       = (conflict_world, Inr [[''dst'', ''a.py'']])
   \<and> pending_conflicts ''proj'' [([''src'', ''a.py''], [''dst'', ''a.py''])] conflict_world
       = [[''dst'', ''a.py'']]
   \<and> sync_paths ''proj'' [''src''] [''dst''] PULL conflict_world
       = (conflict_world, Inl (RuntimeError (DstChanged [[''dst'', ''a.py'']])))"
proof -
  have a: "is_dir conflict_world [''src''] \<or> is_file conflict_world [''src'']"
    by (simp add: conflict_is_dir)
  note b = conflict_all_paths
  from pull_conflicts_reported[OF a b conflict_world_pull] a b conflict_world_pull
  show ?thesis by (simp add: conflict_kill_paths conflict_is_dir)
qed

text \<open>
  In LIST mode the pair is reported as a push that would happen and is not noted: the run
  returns the count.
\<close>

theorem list_mode_conflict_counterexample:
  "dst_changed_only conflict_world ([''src'', ''a.py''], [''dst'', ''a.py''])
   \<and> sync_paths ''proj'' [''src''] [''dst''] LIST conflict_world
       = (conflict_world, Inr 1)"
proof -
  note r = conflict_read_src
  have d: "is_file conflict_world [''dst'', ''a.py'']"
    by (rule get_dst_file_info_is_file[OF conflict_info_dst])
  have "sync_file ''proj'' LIST ([''src'', ''a.py''], [''dst'', ''a.py'']) conflict_world []
        = (conflict_world, Inr [])"
    by (simp add: sync_file_def Let_def read_text_is_file[OF r] d mkdir_parents_of_file[OF d] r
        conflict_info_dst example_hash_src[simplified])
  then show ?thesis
    by (simp add: conflict_world_state sync_paths_def conflict_is_dir conflict_all_paths
        conflict_kill_paths)
qed

subsection \<open>Both sides changed, differently\<close>

text \<open>
  Claim C2, as amended. In PULL, FULL and LIST mode, when the loop reaches a pair whose
  marker hash equals neither the source's hash nor the destination's, and these two differ
  as well, the run ends there with the \<open>RuntimeError\<close> that names both paths: the world it
  leaves is the world the pair was found in, so nothing was written to either file, no
  later pair was looked at and nothing was pruned.
\<close>

theorem diverged_pair_aborts_run:
  assumes "mode \<in> {PULL, FULL, LIST}"
    and "is_dir w0 src \<or> is_file w0 src"
    and "all_paths w0 src dst = Inr (before @ (srcfile, dstfile) # after)"
    and "sync_files src_proj mode before w0 [] = (w, Inr changed)"
    and "read_text w srcfile = Inr srcdata"
    and "dstfile \<noteq> []"
    and "get_dst_file_info w dstfile = Inr (marker_hash, dst_hash, dstdata)"
    and "marker_hash \<noteq> string_hash srcdata"
    and "marker_hash \<noteq> dst_hash"
    and "string_hash srcdata \<noteq> dst_hash"
  shows "sync_paths src_proj src dst mode w0
         = (w, Inl (RuntimeError (BothChanged srcfile dstfile)))"
proof -
  have "sync_file src_proj mode (srcfile, dstfile) w changed
        = (w, Inl (RuntimeError (BothChanged srcfile dstfile)))"
    by (rule sync_file_diverged[OF assms(1,5,6,7,8,9,10)])
  then have "sync_files src_proj mode (before @ (srcfile, dstfile) # after) w0 []
        = (w, Inl (RuntimeError (BothChanged srcfile dstfile)))"
    by (simp add: sync_files_append assms(4))
  moreover from assms(1) have "mode \<noteq> CHECK" by auto
  ultimately show ?thesis
    using assms(2,3) by (auto simp: sync_paths_def)
qed

theorem diverged_pair_aborts_run_witness:
  "PULL \<in> {PULL, FULL, LIST}
   \<and> (is_dir diverged_world [''src''] \<or> is_file diverged_world [''src''])
   \<and> all_paths diverged_world [''src''] [''dst'']
       = Inr ([] @ ([''src'', ''a.py''], [''dst'', ''a.py'']) # [])
   \<and> sync_files ''proj'' PULL [] diverged_world [] = (diverged_world, Inr [])
   \<and> read_text diverged_world [''src'', ''a.py''] = Inr (''x=1'' @ [LF])
   \<and> get_dst_file_info diverged_world [''dst'', ''a.py'']
       = Inr (''65112394118703306444922135359299503413'', ''134084616317733262001561606097025764995'', ''x=2'' @ [LF])
   \<and> ''65112394118703306444922135359299503413'' \<noteq> string_hash (''x=1'' @ [LF])
   \<and> ''65112394118703306444922135359299503413'' \<noteq> ''134084616317733262001561606097025764995''
   \<and> string_hash (''x=1'' @ [LF]) \<noteq> ''134084616317733262001561606097025764995''
   \<and> sync_paths ''proj'' [''src''] [''dst''] PULL diverged_world
       = (diverged_world, Inl (RuntimeError (BothChanged [''src'', ''a.py''] [''dst'', ''a.py''])))"
proof -
  have a: "PULL \<in> {PULL, FULL, LIST}" by simp
  have b: "is_dir diverged_world [''src''] \<or> is_file diverged_world [''src'']"
    by (simp add: diverged_is_dir)
  have c: "all_paths diverged_world [''src''] [''dst'']
       = Inr ([] @ ([''src'', ''a.py''], [''dst'', ''a.py'']) # [])"
    by (simp add: diverged_all_paths)
  have d: "sync_files ''proj'' PULL [] diverged_world [] = (diverged_world, Inr [])"
    by simp
  have e: "[''dst'', ''a.py''] \<noteq> []" by simp
  have f: "''65112394118703306444922135359299503413'' \<noteq> string_hash (''x=1'' @ [LF])"
    by (simp add: example_hash_src[simplified])
  have g: "''65112394118703306444922135359299503413'' \<noteq> ''134084616317733262001561606097025764995''" by simp
  have h: "string_hash (''x=1'' @ [LF]) \<noteq> ''134084616317733262001561606097025764995''"
    by (simp add: example_hash_src[simplified])
  from diverged_pair_aborts_run[OF a b c d diverged_read_src e diverged_info_dst f g h]
    a b c d diverged_read_src diverged_info_dst f g h
  show ?thesis by simp
qed

text \<open>
  In FORCE mode the comparison is never made: the destination is overwritten from the
  source and the run returns the count.
\<close>

theorem force_mode_diverged_counterexample:
  "get_dst_file_info diverged_world [''dst'', ''a.py'']
     = Inr (''65112394118703306444922135359299503413'', ''134084616317733262001561606097025764995'', ''x=2'' @ [LF])
   \<and> string_hash (''x=1'' @ [LF]) = ''331522703481584221736678623746454329871''
   \<and> snd (sync_paths ''proj'' [''src''] [''dst''] FORCE diverged_world) = Inr 1
   \<and> get_dst_file_info
        (fst (sync_paths ''proj'' [''src''] [''dst''] FORCE diverged_world))
        [''dst'', ''a.py'']
     = Inr (''331522703481584221736678623746454329871'', ''331522703481584221736678623746454329871'', ''x=1'' @ [LF])
   \<and> events (fst (sync_paths ''proj'' [''src''] [''dst''] FORCE diverged_world))
     = [Wrote [''dst'', ''a.py'']]"
proof -
  define w' where "w' = \<lparr>tree = Dir [(''src'', Dir [(''a.py'', File (''x=1'' @ [LF]))]),
                  (''dst'', Dir [(''a.py'', marked_file ''331522703481584221736678623746454329871'' (''x=1'' @ [LF]))])],
      events = [Wrote [''dst'', ''a.py'']]\<rparr>"
  have st: "sync_file ''proj'' FORCE ([''src'', ''a.py''], [''dst'', ''a.py''])
              diverged_world [] = (w', Inr [])"
    by (simp add: sync_file_def Let_def diverged_world_def example_world_def marked_file_def
        is_file_def mkdir_parents_def parent_def read_text_def write_marked_def open_w_def
        file_write_def add_marker_def w'_def string_eval)
  have k: "kill_paths w' [''src''] [''dst''] = []"
    by (simp add: w'_def marked_file_def kill_paths_def kill_names_def
      os_walk_def path_exists_def relative_to_def path_str_def string_eval)
  have r: "sync_paths ''proj'' [''src''] [''dst''] FORCE diverged_world = (w', Inr 1)"
    by (simp add: sync_paths_def diverged_is_dir diverged_all_paths st k)
  have i: "get_dst_file_info w' [''dst'', ''a.py'']
     = Inr (''331522703481584221736678623746454329871'', ''331522703481584221736678623746454329871'', ''x=1'' @ [LF])"
    by (simp add: w'_def marked_file_def get_dst_file_info_def
      read_text_def dst_info_def string_eval)
  show ?thesis
    using i by (simp add: r diverged_info_dst example_hash_src[simplified] w'_def)
qed

subsection \<open>A destination that is not there yet\<close>

text \<open>
  Claim C4, as amended. In PULL, FULL and FORCE mode, for a source file with any text
  that has no \<open>EFRO_SYNC_HASH=\<close> in its second line, a project id without line
  boundaries, and a destination path at which nothing exists and whose directories can
  be made: the turn of the pair returns and leaves a destination file whose marker is the
  hash of the source text; when the source text is its own line-normal form, the body
  decoded from the destination is the source text and hashes to the marker. A sync of
  that one file returns 1 with the same result. (For a source text that is not its own
  line-normal form the statement is about the marker alone; what \<open>add_marker\<close> stores as
  the body of such a text is treated with the marker codec above.)
\<close>

theorem pull_into_missing_destination:
  assumes "mode \<in> {PULL, FULL, FORCE}"
    and "read_text w srcfile = Inr srcdata"
    and "\<not> path_exists w dstfile"
    and "mkdir_parents w (parent dstfile) = Inr w1"
    and "\<forall>c\<in>set src_proj. \<not> linebreak c"
    and "\<not> (length (splitlines srcdata) > 1
             \<and> contains ''EFRO_SYNC_HASH='' (splitlines srcdata ! 1))"
  shows "\<exists>w' dst_hash dstdata.
            (\<forall>changed. sync_file src_proj mode (srcfile, dstfile) w changed
                   = (w', Inr changed))
          \<and> get_dst_file_info w' dstfile = Inr (string_hash srcdata, dst_hash, dstdata)
          \<and> (normal_text srcdata = srcdata
               \<longrightarrow> dst_hash = string_hash srcdata \<and> dstdata = srcdata)
          \<and> (valid_filename (path_name srcfile) = Inr True
               \<longrightarrow> sync_paths src_proj srcfile dstfile mode w = (w', Inr 1))"
proof -
  have s: "is_file w srcfile" by (rule read_text_is_file[OF assms(2)])
  note same = same_file[OF mkdir_parents_files(1)[OF assms(4)]]
  have r1: "read_text w1 srcfile = Inr srcdata" using same(1) assms(2) by simp
  from assms(3) have "\<not> is_file w dstfile"
    by (simp add: path_exists_def is_file_def)
  then have nd: "\<not> is_file w1 dstfile" using same(2) by simp
  from open_w_new[OF assms(4,3)] obtain w2 where o: "open_w w1 dstfile = Inr w2" by blast
  from add_marker_ok[OF assms(6)] obtain marked
    where m: "add_marker src_proj srcdata = Inr marked" by blast
  from write_marked_ok[OF o m] obtain w' where
    wm: "write_marked src_proj w1 dstfile srcdata = (w', Inr ())" by blast
  from assms(1) have ml: "mode \<noteq> LIST" "mode \<noteq> CHECK" by auto
  have step: "sync_file src_proj mode (srcfile, dstfile) w changed = (w', Inr changed)"
    for changed
    by (simp add: sync_file_def Let_def s assms(4) r1 nd ml wm)
  have info: "get_dst_file_info w' dstfile
              = Inr (string_hash srcdata, string_hash (normal_text srcdata),
                     normal_text srcdata)"
    by (rule info_after_write_marked_any[OF wm assms(5)])
  have "\<not> is_dir w' dstfile"
    by (rule is_file_not_dir[OF get_dst_file_info_is_file[OF info]])
  then have run: "valid_filename (path_name srcfile) = Inr True
       \<longrightarrow> sync_paths src_proj srcfile dstfile mode w = (w', Inr 1)"
    by (simp add: sync_paths_def all_paths_def s ml step)
  have "(\<forall>changed. sync_file src_proj mode (srcfile, dstfile) w changed
                   = (w', Inr changed))
          \<and> get_dst_file_info w' dstfile
              = Inr (string_hash srcdata, string_hash (normal_text srcdata),
                     normal_text srcdata)
          \<and> (normal_text srcdata = srcdata
               \<longrightarrow> string_hash (normal_text srcdata) = string_hash srcdata
                   \<and> normal_text srcdata = srcdata)
          \<and> (valid_filename (path_name srcfile) = Inr True
               \<longrightarrow> sync_paths src_proj srcfile dstfile mode w = (w', Inr 1))"
    using step info run by simp
  then show ?thesis by blast
qed

theorem pull_into_missing_destination_witness:
  "PULL \<in> {PULL, FULL, FORCE}
   \<and> read_text fresh_world [''src'', ''sub'', ''a.py''] = Inr (''x=1'' @ [LF])
   \<and> \<not> path_exists fresh_world [''dst'', ''sub'', ''a.py'']
   \<and> mkdir_parents fresh_world (parent [''dst'', ''sub'', ''a.py'']) = Inr fresh_world_dirs
   \<and> \<not> list_ex linebreak ''proj''
   \<and> \<not> (length (splitlines (''x=1'' @ [LF])) > 1
          \<and> contains ''EFRO_SYNC_HASH='' (splitlines (''x=1'' @ [LF]) ! 1))
   \<and> normal_text (''x=1'' @ [LF]) = ''x=1'' @ [LF]
   \<and> (\<exists>w'. (\<forall>changed. sync_file ''proj'' PULL
                  ([''src'', ''sub'', ''a.py''], [''dst'', ''sub'', ''a.py'']) fresh_world changed
                  = (w', Inr changed))
          \<and> get_dst_file_info w' [''dst'', ''sub'', ''a.py'']
              = Inr (string_hash (''x=1'' @ [LF]),
                     string_hash (''x=1'' @ [LF]), ''x=1'' @ [LF])
          \<and> sync_paths ''proj'' [''src'', ''sub'', ''a.py'']
               [''dst'', ''sub'', ''a.py''] PULL fresh_world = (w', Inr 1))"
proof -
  have a: "PULL \<in> {PULL, FULL, FORCE}" by simp
  have p: "\<forall>c\<in>set ''proj''. \<not> linebreak c" by (simp add: linebreak_def)
  have q: "\<not> list_ex linebreak ''proj''" by (simp add: linebreak_def)
  have n: "normal_text (''x=1'' @ [LF]) = ''x=1'' @ [LF]"
    by (simp add: normal_text_def string_eval)
  have m: "\<not> (length (splitlines (''x=1'' @ [LF])) > 1
          \<and> contains ''EFRO_SYNC_HASH='' (splitlines (''x=1'' @ [LF]) ! 1))"
    by (simp add: string_eval)
  have v: "valid_filename (path_name [''src'', ''sub'', ''a.py'']) = Inr True"
    by (simp add: path_name_def valid_a_py)
  from pull_into_missing_destination[OF a fresh_read_src fresh_no_dst(1) fresh_mkdir p m]
  obtain w' dst_hash dstdata where
    st: "\<forall>changed. sync_file ''proj'' PULL
           ([''src'', ''sub'', ''a.py''], [''dst'', ''sub'', ''a.py'']) fresh_world changed
           = (w', Inr changed)"
    and gi: "get_dst_file_info w' [''dst'', ''sub'', ''a.py'']
           = Inr (string_hash (''x=1'' @ [LF]), dst_hash, dstdata)"
    and nb: "normal_text (''x=1'' @ [LF]) = ''x=1'' @ [LF]
           \<longrightarrow> dst_hash = string_hash (''x=1'' @ [LF]) \<and> dstdata = ''x=1'' @ [LF]"
    and ru: "valid_filename (path_name [''src'', ''sub'', ''a.py'']) = Inr True
           \<longrightarrow> sync_paths ''proj'' [''src'', ''sub'', ''a.py'']
                 [''dst'', ''sub'', ''a.py''] PULL fresh_world = (w', Inr 1)"
    by blast
  from nb n have "dst_hash = string_hash (''x=1'' @ [LF])" "dstdata = ''x=1'' @ [LF]"
    by blast+
  with gi have gi': "get_dst_file_info w' [''dst'', ''sub'', ''a.py'']
              = Inr (string_hash (''x=1'' @ [LF]),
                     string_hash (''x=1'' @ [LF]), ''x=1'' @ [LF])" by simp
  from ru v have ru': "sync_paths ''proj'' [''src'', ''sub'', ''a.py'']
                 [''dst'', ''sub'', ''a.py''] PULL fresh_world = (w', Inr 1)" by blast
  from st gi' ru' have "\<exists>w'. (\<forall>changed. sync_file ''proj'' PULL
                  ([''src'', ''sub'', ''a.py''], [''dst'', ''sub'', ''a.py'']) fresh_world changed
                  = (w', Inr changed))
          \<and> get_dst_file_info w' [''dst'', ''sub'', ''a.py'']
              = Inr (string_hash (''x=1'' @ [LF]),
                     string_hash (''x=1'' @ [LF]), ''x=1'' @ [LF])
          \<and> sync_paths ''proj'' [''src'', ''sub'', ''a.py'']
               [''dst'', ''sub'', ''a.py''] PULL fresh_world = (w', Inr 1)"
    by blast
  with a fresh_read_src fresh_no_dst(1) fresh_mkdir q n m show ?thesis by blast
qed

text \<open>In LIST mode the pull is only announced: no destination file is there afterwards.\<close>

theorem list_mode_missing_destination_counterexample:
  "read_text fresh_world [''src'', ''sub'', ''a.py''] = Inr (''x=1'' @ [LF])
   \<and> \<not> path_exists fresh_world [''dst'', ''sub'', ''a.py'']
   \<and> sync_paths ''proj'' [''src'', ''sub'', ''a.py''] [''dst'', ''sub'', ''a.py''] LIST
        fresh_world = (fresh_world_dirs, Inr 1)
   \<and> \<not> path_exists fresh_world_dirs [''dst'', ''sub'', ''a.py'']"
  by (simp add: fresh_read_src fresh_no_dst fresh_dirs_facts sync_paths_def all_paths_def
      read_text_is_file[OF fresh_read_src] path_name_def valid_a_py fresh_list_step)
     (simp add: fresh_world_dirs_def is_dir_def)

subsection \<open>LIST mode\<close>

text \<open>
  Claim C7. LIST mode opens no file for writing and removes nothing, but it is not free of
  writes: the directories of every destination path are made before the mode is looked at.
  Listing a source \<open>src/sub/a.py\<close> against a destination \<open>dst\<close> that does not exist leaves
  the directories \<open>dst\<close> and \<open>dst/sub\<close> behind.
\<close>

theorem list_mode_creates_directories:
  "\<not> path_exists fresh_world [''dst'']
   \<and> sync_paths ''proj'' [''src''] [''dst''] LIST fresh_world
       = (fresh_world_dirs, Inr 1)
   \<and> is_dir fresh_world_dirs [''dst'', ''sub'']"
  by (simp add: fresh_no_dst fresh_dirs_facts sync_paths_def fresh_all_paths fresh_list_step
      fresh_dirs_kill_paths) (simp add: fresh_world_def is_dir_def)

subsection \<open>Both sides changed, alike\<close>

text \<open>
  Claim C6, as amended. In every mode but CHECK, for a pair whose source and destination
  hold the same text (their hashes are equal; equal hashes are taken to mean equal texts)
  while the marker has another hash, with a project id without line boundaries and no
  \<open>EFRO_SYNC_HASH=\<close> in the second line of the text: the turn of the pair returns without
  an exception; in LIST mode the world is as before; otherwise the destination is the one
  file opened for writing, it decodes to the shared hash as marker and as content hash and
  to the same body as before, and the source and every other file hold what they held.
\<close>

theorem converged_pair_refreshes_marker:
  assumes "mode \<noteq> CHECK"
    and "read_text w srcfile = Inr srcdata"
    and "dstfile \<noteq> []" and "srcfile \<noteq> dstfile"
    and "get_dst_file_info w dstfile = Inr (marker_hash, dst_hash, dstdata)"
    and "string_hash srcdata = dst_hash" and "marker_hash \<noteq> dst_hash"
    and "srcdata = dstdata"
    and "\<forall>c\<in>set src_proj. \<not> linebreak c"
    and "\<not> (length (splitlines srcdata) > 1
             \<and> contains ''EFRO_SYNC_HASH='' (splitlines srcdata ! 1))"
  shows "\<exists>w'. (\<forall>changed. sync_file src_proj mode (srcfile, dstfile) w changed
                   = (w', Inr changed))
          \<and> (if mode = LIST then w' = w
              else get_dst_file_info w' dstfile = Inr (dst_hash, dst_hash, dstdata)
                   \<and> events w' = events w @ [Wrote dstfile])
          \<and> read_text w' srcfile = Inr srcdata
          \<and> (\<forall>q. q \<noteq> dstfile \<longrightarrow> file_at (tree w') q = file_at (tree w) q)"
proof -
  have s: "is_file w srcfile" by (rule read_text_is_file[OF assms(2)])
  have d: "is_file w dstfile" by (rule get_dst_file_info_is_file[OF assms(5)])
  note mk = mkdir_parents_of_file[OF d assms(3)]
  from assms(6,7) have h: "string_hash srcdata \<noteq> marker_hash" "dst_hash \<noteq> marker_hash"
    "marker_hash \<noteq> string_hash srcdata" by auto
  show ?thesis
  proof (cases "mode = LIST")
    case True
    have "sync_file src_proj mode (srcfile, dstfile) w changed = (w, Inr changed)" for changed
      using h assms(6)
      by (auto simp add: sync_file_def Let_def s d mk assms(2,5) True)
    with True assms(2) show ?thesis by auto
  next
    case False
    from open_w_existing[OF d] obtain w2 where o: "open_w w dstfile = Inr w2" by blast
    from add_marker_ok[OF assms(10)] obtain marked
      where m: "add_marker src_proj srcdata = Inr marked" by blast
    from write_marked_ok[OF o m] obtain w' where
      wm: "write_marked src_proj w dstfile srcdata = (w', Inr ())" by blast
    have step: "sync_file src_proj mode (srcfile, dstfile) w changed = (w', Inr changed)"
      for changed
      using h assms(6)
      by (auto simp add: sync_file_def Let_def s d mk assms(2,5) False wm)
    from assms(5) obtain raw where raw: "dst_info dstfile raw = Inr (marker_hash, dst_hash, dstdata)"
      by (auto simp: get_dst_file_info_def split: sum.splits)
    have nt: "normal_text srcdata = srcdata"
      using dst_info_body(1)[OF raw] assms(8) by simp
    have fa: "file_at (tree w) srcfile = Some srcdata"
      using assms(2) by (simp add: read_text_Inr_iff)
    note aw = after_write_marked[OF wm fa assms(4) nt assms(9)]
    note f = write_marked_facts[OF wm]
    from aw assms(6,8) have "get_dst_file_info w' dstfile = Inr (dst_hash, dst_hash, dstdata)"
      by simp
    with step aw(1) f(2,3) False show ?thesis by auto
  qed
qed

theorem converged_pair_refreshes_marker_witness:
  "PULL \<noteq> CHECK
   \<and> read_text converged_world [''src'', ''a.py''] = Inr (''x=1'' @ [LF])
   \<and> [''dst'', ''a.py''] \<noteq> [] \<and> [''src'', ''a.py''] \<noteq> [''dst'', ''a.py'']
   \<and> get_dst_file_info converged_world [''dst'', ''a.py'']
       = Inr (''65112394118703306444922135359299503413'', ''331522703481584221736678623746454329871'', ''x=1'' @ [LF])
   \<and> string_hash (''x=1'' @ [LF]) = ''331522703481584221736678623746454329871''
   \<and> ''65112394118703306444922135359299503413'' \<noteq> ''331522703481584221736678623746454329871''
   \<and> \<not> list_ex linebreak ''proj''
   \<and> \<not> (length (splitlines (''x=1'' @ [LF])) > 1
          \<and> contains ''EFRO_SYNC_HASH='' (splitlines (''x=1'' @ [LF]) ! 1))
   \<and> (\<exists>w'. (\<forall>changed. sync_file ''proj'' PULL
                  ([''src'', ''a.py''], [''dst'', ''a.py'']) converged_world changed
                  = (w', Inr changed))
          \<and> get_dst_file_info w' [''dst'', ''a.py'']
              = Inr (''331522703481584221736678623746454329871'', ''331522703481584221736678623746454329871'', ''x=1'' @ [LF])
          \<and> events w' = [Wrote [''dst'', ''a.py'']]
          \<and> read_text w' [''src'', ''a.py''] = Inr (''x=1'' @ [LF]))"
proof -
  have a: "PULL \<noteq> CHECK" by simp
  have b: "[''dst'', ''a.py''] \<noteq> []" by simp
  have c: "[''src'', ''a.py''] \<noteq> [''dst'', ''a.py'']" by simp
  have g: "''65112394118703306444922135359299503413'' \<noteq> ''331522703481584221736678623746454329871''" by simp
  have p: "\<forall>c\<in>set ''proj''. \<not> linebreak c" by (simp add: linebreak_def)
  have q: "\<not> list_ex linebreak ''proj''" by (simp add: linebreak_def)
  have m: "\<not> (length (splitlines (''x=1'' @ [LF])) > 1
          \<and> contains ''EFRO_SYNC_HASH='' (splitlines (''x=1'' @ [LF]) ! 1))"
    by (simp add: string_eval)
  have e: "events converged_world = []"
    by (simp add: converged_world_def example_world_def)
  from converged_pair_refreshes_marker[OF a converged_read_src b c converged_info_dst
      example_hash_src g refl p m] e
  have "\<exists>w'. (\<forall>changed. sync_file ''proj'' PULL
                  ([''src'', ''a.py''], [''dst'', ''a.py'']) converged_world changed
                  = (w', Inr changed))
          \<and> get_dst_file_info w' [''dst'', ''a.py'']
              = Inr (''331522703481584221736678623746454329871'', ''331522703481584221736678623746454329871'', ''x=1'' @ [LF])
          \<and> events w' = [Wrote [''dst'', ''a.py'']]
          \<and> read_text w' [''src'', ''a.py''] = Inr (''x=1'' @ [LF])"
    by auto
  with a b c g q m converged_read_src converged_info_dst example_hash_src
  show ?thesis by blast
qed

text \<open>In CHECK mode the run raises before it looks at any pair.\<close>

theorem check_mode_converged_counterexample:
  "read_text converged_world [''src'', ''a.py''] = Inr (''x=1'' @ [LF])
   \<and> get_dst_file_info converged_world [''dst'', ''a.py'']
       = Inr (''65112394118703306444922135359299503413'', ''331522703481584221736678623746454329871'', ''x=1'' @ [LF])
   \<and> string_hash (''x=1'' @ [LF]) = ''331522703481584221736678623746454329871''
   \<and> sync_paths ''proj'' [''src''] [''dst''] CHECK converged_world
       = (converged_world, Inl (ValueError CheckModeCall))"
  by (simp add: converged_read_src converged_info_dst example_hash_src[simplified]
      sync_paths_def)

subsection \<open>Syncing twice\<close>




text \<open>
  What the statement leaves out in FULL mode, on the smallest tree: the source file holds
  \<open>x=1\<close> without a final line feed. The first FULL run pulls it. The second run finds
  the marker to be the hash of the source text but not of the body under it, takes the
  destination for edited, and writes the body over the source and the destination anew.
\<close>

lemma full_mode_pushes_back_unterminated_source:
  "sync_paths ''proj'' [''src''] [''dst''] FULL
     \<lparr>tree = Dir [(''src'', Dir [(''a.py'', File ''x=1'')])], events = []\<rparr>
   = (\<lparr>tree = Dir [(''src'', Dir [(''a.py'', File ''x=1'')]),
                   (''dst'', Dir [(''a.py'',
                      marked_file ''215777927197740564177945756004471525997'' (''x=1'' @ [LF]))])],
       events = [Wrote [''dst'', ''a.py'']]\<rparr>, Inr 1)
   \<and> sync_paths ''proj'' [''src''] [''dst''] FULL
     \<lparr>tree = Dir [(''src'', Dir [(''a.py'', File ''x=1'')]),
                  (''dst'', Dir [(''a.py'',
                     marked_file ''215777927197740564177945756004471525997'' (''x=1'' @ [LF]))])],
      events = [Wrote [''dst'', ''a.py'']]\<rparr>
   = (\<lparr>tree = Dir [(''src'', Dir [(''a.py'', File (''x=1'' @ [LF]))]),
                   (''dst'', Dir [(''a.py'',
                      marked_file ''331522703481584221736678623746454329871'' (''x=1'' @ [LF]))])],
       events = [Wrote [''dst'', ''a.py''], Wrote [''src'', ''a.py''],
                 Wrote [''dst'', ''a.py'']]\<rparr>, Inr 1)"
proof -
  have one: "sync_paths ''proj'' [''src''] [''dst''] FULL
     \<lparr>tree = Dir [(''src'', Dir [(''a.py'', File ''x=1'')])], events = []\<rparr>
   = (\<lparr>tree = Dir [(''src'', Dir [(''a.py'', File ''x=1'')]),
                   (''dst'', Dir [(''a.py'',
                      marked_file ''215777927197740564177945756004471525997'' (''x=1'' @ [LF]))])],
       events = [Wrote [''dst'', ''a.py'']]\<rparr>, Inr 1)"
    by (simp add: run_eval)
  have two: "sync_paths ''proj'' [''src''] [''dst''] FULL
     \<lparr>tree = Dir [(''src'', Dir [(''a.py'', File ''x=1'')]),
                  (''dst'', Dir [(''a.py'',
                     marked_file ''215777927197740564177945756004471525997'' (''x=1'' @ [LF]))])],
      events = [Wrote [''dst'', ''a.py'']]\<rparr>
   = (\<lparr>tree = Dir [(''src'', Dir [(''a.py'', File (''x=1'' @ [LF]))]),
                   (''dst'', Dir [(''a.py'',
                      marked_file ''331522703481584221736678623746454329871'' (''x=1'' @ [LF]))])],
       events = [Wrote [''dst'', ''a.py''], Wrote [''src'', ''a.py''],
                 Wrote [''dst'', ''a.py'']]\<rparr>, Inr 1)"
    by (simp add: run_eval)
  from one two show ?thesis by (rule conjI)
qed

end
